theory Spec2Isabelle
  imports Complex_Main "HOL-Library.Char_ord" "HOL-Library.List_Lexorder"
    "HOL-Library.Product_Lexorder"
begin

section \<open>Data model\<close>

text \<open>
  A pandas DataFrame is an ordered sequence of named, typed columns. The dtypes the
  applications distinguish are \<open>float64\<close>, \<open>int64\<close> (the two that
  \<open>select_dtypes\<close> keeps) and \<open>object\<close> (text). A \<open>float64\<close> value is modelled
  as a real number; NaN, which pandas uses both for a missing cell and for an undefined
  result, is \<open>None\<close>. An \<open>int64\<close> column has no missing cells.
\<close>

datatype column = Float64 "real option list" | Int64 "int list" | Object "string option list"

type_synonym dataframe = "(string \<times> column) list"

datatype error =
    KeyError "string list"
  | TypeError
  | ValueError
  | StreamlitAPIException
  | ParseError

definition columns :: "dataframe \<Rightarrow> string list" where
  "columns df = map fst df"

text \<open>\<open>df[c]\<close>: the column named \<open>c\<close>, or \<open>KeyError\<close>.\<close>

definition getitem :: "dataframe \<Rightarrow> string \<Rightarrow> error + column" where
  "getitem df c = (case map_of df c of None \<Rightarrow> Inl (KeyError [c]) | Some col \<Rightarrow> Inr col)"

definition is_numeric :: "column \<Rightarrow> bool" where
  "is_numeric col = (case col of Float64 _ \<Rightarrow> True | Int64 _ \<Rightarrow> True | Object _ \<Rightarrow> False)"

text \<open>\<open>df.select_dtypes(include=['float64', 'int64'])\<close>, columns kept in order.\<close>

definition select_dtypes :: "dataframe \<Rightarrow> dataframe" where
  "select_dtypes df = filter (\<lambda>(c, col). is_numeric col) df"

text \<open>The values of a numeric column as floats; an \<open>object\<close> column has none.\<close>

definition to_float :: "column \<Rightarrow> error + real option list" where
  "to_float col =
     (case col of
        Float64 xs \<Rightarrow> Inr xs
      | Int64 xs \<Rightarrow> Inr (map (\<lambda>i. Some (real_of_int i)) xs)
      | Object _ \<Rightarrow> Inl TypeError)"

section \<open>Statistics: Pearson correlation\<close>

text \<open>
  Both \<open>numeric_df.corr()\<close> and \<open>df[x_col].corr(df[y_col])\<close> compute Pearson's
  coefficient over the rows in which both cells are present. The result is NaN when the
  denominator vanishes (no row, one row, or a column that is constant on those rows).
\<close>

fun valid_pairs :: "real option list \<Rightarrow> real option list \<Rightarrow> (real \<times> real) list" where
  "valid_pairs (Some x # xs) (Some y # ys) = (x, y) # valid_pairs xs ys"
| "valid_pairs (_ # xs) (_ # ys) = valid_pairs xs ys"
| "valid_pairs _ _ = []"

text \<open>\<open>s.dropna()\<close>: the present values of a column, in order.\<close>

fun dropna :: "'a option list \<Rightarrow> 'a list" where
  "dropna [] = []"
| "dropna (None # xs) = dropna xs"
| "dropna (Some x # xs) = x # dropna xs"

text \<open>A column is constant when all its present values are equal (none counts).\<close>

definition is_constant :: "real list \<Rightarrow> bool" where
  "is_constant xs = (case xs of [] \<Rightarrow> True | x # _ \<Rightarrow> list_all (\<lambda>y. y = x) xs)"

definition mean :: "real list \<Rightarrow> real" where
  "mean xs = sum_list xs / real (length xs)"

text \<open>Sum of squared deviations from the mean, and sum of products of deviations.\<close>

definition ssqd :: "real list \<Rightarrow> real" where
  "ssqd xs = sum_list (map (\<lambda>x. (x - mean xs) * (x - mean xs)) xs)"

definition covxy :: "(real \<times> real) list \<Rightarrow> real" where
  "covxy ps =
     sum_list (map (\<lambda>(x, y). (x - mean (map fst ps)) * (y - mean (map snd ps))) ps)"

definition nancorr :: "real option list \<Rightarrow> real option list \<Rightarrow> real option" where
  "nancorr a b =
     (let ps = valid_pairs a b;
          divisor = sqrt (ssqd (map fst ps) * ssqd (map snd ps))
      in if ps = [] then None
         else if divisor \<noteq> 0 then Some (covxy ps / divisor)
         else None)"

text \<open>\<open>numeric_df.corr()\<close>: the square matrix of coefficients, row by row.\<close>

definition corr :: "dataframe \<Rightarrow> real option list list" where
  "corr numeric_df =
     map (\<lambda>(a, ca). map (\<lambda>(b, cb).
            (case (to_float ca, to_float cb) of
               (Inr xs, Inr ys) \<Rightarrow> nancorr xs ys
             | _ \<Rightarrow> None)) numeric_df) numeric_df"

text \<open>\<open>s.corr(t)\<close> on two columns of a frame.\<close>

definition series_corr :: "column \<Rightarrow> column \<Rightarrow> error + real option" where
  "series_corr s t =
     (case to_float s of
        Inl e \<Rightarrow> Inl e
      | Inr xs \<Rightarrow> (case to_float t of Inl e \<Rightarrow> Inl e | Inr ys \<Rightarrow> Inr (nancorr xs ys)))"

text \<open>
  The three-way message of the correlation tab. A comparison with NaN is false, so a NaN
  coefficient falls through to the last branch.
\<close>

datatype strength = Strong | Moderate | Weak

definition correlation_strength :: "real option \<Rightarrow> strength" where
  "correlation_strength correlation =
     (case correlation of
        None \<Rightarrow> Weak
      | Some r \<Rightarrow>
          if \<bar>r\<bar> > 0.7 then Strong
          else if \<bar>r\<bar> > 0.4 then Moderate
          else Weak)"

section \<open>Relationship explorer\<close>

text \<open>
  \<open>st.selectbox(label, options, index)\<close> raises \<open>StreamlitAPIException\<close> when the
  default index is not a position of a non-empty option list; with no option at all it
  returns \<open>None\<close>.
\<close>

definition selectbox :: "'a list \<Rightarrow> nat \<Rightarrow> error + 'a option" where
  "selectbox options index =
     (if options = [] then Inr None
      else if index < length options then Inr (Some (options ! index))
      else Inl StreamlitAPIException)"

record relationship =
  x_col :: string
  y_col :: string
  correlation :: "real option"
  message :: strength

text \<open>
  The computation of the relationship explorer (the plotting calls between the
  selections and the coefficient draw charts and are not modelled): the two default
  selections, then \<open>df[x_col].corr(df[y_col])\<close> and its message. A selection of
  \<open>None\<close> is no column of the frame: \<open>df[None]\<close> raises \<open>KeyError\<close>.
\<close>

definition relationship_explorer :: "dataframe \<Rightarrow> error + relationship" where
  "relationship_explorer df =
     (let numeric_df = select_dtypes df in
      case selectbox (columns numeric_df) 2 of
        Inl e \<Rightarrow> Inl e
      | Inr x \<Rightarrow>
     (case selectbox (columns numeric_df) 5 of
        Inl e \<Rightarrow> Inl e
      | Inr y \<Rightarrow>
     (case x of
        None \<Rightarrow> Inl (KeyError [''None''])
      | Some xc \<Rightarrow>
     (case getitem df xc of
        Inl e \<Rightarrow> Inl e
      | Inr sx \<Rightarrow>
     (case y of
        None \<Rightarrow> Inl (KeyError [''None''])
      | Some yc \<Rightarrow>
     (case getitem df yc of
        Inl e \<Rightarrow> Inl e
      | Inr sy \<Rightarrow>
     (case series_corr sx sy of
        Inl e \<Rightarrow> Inl e
      | Inr c \<Rightarrow>
          Inr \<lparr>x_col = xc, y_col = yc, correlation = c,
               message = correlation_strength c\<rparr>)))))))"

section \<open>Demo data\<close>

text \<open>Decimal digits of a natural number, as \<open>f"County_{i}"\<close> formats it.\<close>

definition digit_char :: "nat \<Rightarrow> char" where
  "digit_char d = ''0123456789'' ! d"

function string_of_nat :: "nat \<Rightarrow> string" where
  "string_of_nat n =
     (if n < 10 then [digit_char n]
      else string_of_nat (n div 10) @ [digit_char (n mod 10)])"
  by pat_completeness auto
termination
  by (relation "measure id") auto

declare string_of_nat.simps [simp del]

text \<open>
  numpy's global random generator, as far as the program uses it: seeding, one normal
  variate with a given mean and standard deviation, one uniform index below a bound.
  The generator itself is a parameter; its state \<open>'g\<close> is threaded through the draws.
\<close>

record 'g numpy_random =
  rs_seed :: "nat \<Rightarrow> 'g"
  rs_normal :: "real \<Rightarrow> real \<Rightarrow> 'g \<Rightarrow> real \<times> 'g"
  rs_randint :: "nat \<Rightarrow> 'g \<Rightarrow> nat \<times> 'g"

text \<open>\<open>n\<close> successive draws, as the \<open>size\<close> argument asks for.\<close>

fun draws :: "('g \<Rightarrow> 'a \<times> 'g) \<Rightarrow> nat \<Rightarrow> 'g \<Rightarrow> 'a list \<times> 'g" where
  "draws f 0 g = ([], g)"
| "draws f (Suc n) g =
     (case f g of (x, g') \<Rightarrow> (case draws f n g' of (xs, g'') \<Rightarrow> (x # xs, g'')))"

definition normal :: "'g numpy_random \<Rightarrow> real \<Rightarrow> real \<Rightarrow> nat \<Rightarrow> 'g \<Rightarrow> real list \<times> 'g" where
  "normal np loc scale n g = draws (rs_normal np loc scale) n g"

text \<open>\<open>np.random.choice(a, n)\<close>: \<open>n\<close> uniform positions of \<open>a\<close>.\<close>

definition choice :: "'g numpy_random \<Rightarrow> 'a list \<Rightarrow> nat \<Rightarrow> 'g \<Rightarrow> 'a list \<times> 'g" where
  "choice np a n g =
     (case draws (rs_randint np (length a)) n g of
        (ixs, g') \<Rightarrow> (map (\<lambda>i. a ! (i mod length a)) ixs, g'))"

text \<open>
  \<open>load_demo_data\<close>. The state \<open>g0\<close> of the global generator before the call is
  replaced by the seeding; the state after the call is returned with the frame. The
  \<open>st.cache_data\<close> decorator stores the frame of the first call and returns it again;
  the model is the body that a call without a stored frame runs.
\<close>

definition load_demo_data :: "'g numpy_random \<Rightarrow> 'g \<Rightarrow> dataframe \<times> 'g" where
  "load_demo_data np g0 =
     (let g1 = rs_seed np 42;
          n = 100;
          counties = map (\<lambda>i. ''County_'' @ string_of_nat i) [1..<n + 1];
          (median_income, g2) = normal np 45000 15000 n g1;
          (poverty_rate, g3) = normal np 15 5 n g2;
          (education_level, g4) = normal np 25 10 n g3;
          (noise_c, g5) = normal np 0 10 n g4;
          cancer_rate = map (\<lambda>(m, p, e). 150 - 0.001 * m + 2 * p + e)
                          (zip median_income (zip poverty_rate noise_c));
          cancer_rate = map (\<lambda>c. max c 50) cancer_rate;
          (noise_l, g6) = normal np 0 5 n g5;
          lung_cancer = map (\<lambda>(m, p, e). 50 - 0.0003 * m + 1.5 * p + e)
                          (zip median_income (zip poverty_rate noise_l));
          (noise_b, g7) = normal np 0 8 n g6;
          breast_cancer = map (\<lambda>(m, p, e). 40 - 0.0002 * m + 0.5 * p + e)
                          (zip median_income (zip poverty_rate noise_b));
          (regions, g8) = choice np [''Northeast'', ''Midwest'', ''South'', ''West''] n g7;
          df = [(''County'', Object (map Some counties)),
                (''Region'', Object (map Some regions)),
                (''Median_Income'', Float64 (map Some median_income)),
                (''Poverty_Rate'', Float64 (map Some poverty_rate)),
                (''Education_Level'', Float64 (map Some education_level)),
                (''Cancer_Rate'', Float64 (map Some cancer_rate)),
                (''Lung_Cancer_Rate'', Float64 (map Some lung_cancer)),
                (''Breast_Cancer_Rate'', Float64 (map Some breast_cancer))]
      in (df, g8))"

definition column_length :: "column \<Rightarrow> nat" where
  "column_length col =
     (case col of Float64 xs \<Rightarrow> length xs | Int64 xs \<Rightarrow> length xs | Object xs \<Rightarrow> length xs)"

section \<open>Ingestion\<close>

record uploaded_file =
  name :: string
  bytes :: string

text \<open>\<open>pd.read_csv\<close> and \<open>pd.read_excel\<close>: parsers, given as parameters.\<close>

record readers =
  read_csv :: "string \<Rightarrow> error + dataframe"
  read_excel :: "string \<Rightarrow> error + dataframe"

datatype notice = StSuccess | StError error | StInfo | StWarning

definition endswith :: "string \<Rightarrow> string \<Rightarrow> bool" where
  "endswith s t = (length t \<le> length s \<and> drop (length s - length t) s = t)"

text \<open>
  The upload branch of \<open>streamlit_cancer_app.py\<close>. The result is the notice shown and
  the frame the rest of the script works on; no frame means \<open>st.stop()\<close>. An exception
  leaving the branch would be \<open>Inl\<close>.
\<close>

definition load_data ::
  "'g numpy_random \<Rightarrow> readers \<Rightarrow> uploaded_file option \<Rightarrow> bool \<Rightarrow> 'g
     \<Rightarrow> error + notice \<times> dataframe option" where
  "load_data np rd uploaded use_demo g =
     (case uploaded of
        Some f \<Rightarrow>
          (case (if endswith (name f) ''.csv'' then read_csv rd (bytes f)
                 else read_excel rd (bytes f)) of
             Inr df \<Rightarrow> Inr (StSuccess, Some df)
           | Inl e \<Rightarrow> Inr (StError e, Some (fst (load_demo_data np g))))
      | None \<Rightarrow>
          if use_demo then Inr (StInfo, Some (fst (load_demo_data np g)))
          else Inr (StWarning, None))"

text \<open>The upload branch of \<open>streamlit_app.py\<close>: \<open>read_excel\<close> outside any \<open>try\<close>.\<close>

definition load_data_simple ::
  "readers \<Rightarrow> uploaded_file option \<Rightarrow> error + notice list \<times> dataframe option" where
  "load_data_simple rd uploaded =
     (case uploaded of
        Some f \<Rightarrow>
          (case read_excel rd (bytes f) of
             Inl e \<Rightarrow> Inl e
           | Inr df \<Rightarrow> Inr ([], Some df))
      | None \<Rightarrow> Inr ([StWarning], None))"

section \<open>Regional aggregation\<close>

text \<open>
  Group keys. A region label is text in the demo data, and a number when the uploaded
  \<open>Region\<close> column is numeric; one column never mixes the two. Labels are ordered as
  Python orders them: numbers by value, text lexicographically by character code.
\<close>

datatype label = LNum real | LStr string

instantiation label :: linorder
begin

fun less_eq_label :: "label \<Rightarrow> label \<Rightarrow> bool" where
  "less_eq_label (LNum a) (LNum b) = (a \<le> b)"
| "less_eq_label (LNum a) (LStr b) = True"
| "less_eq_label (LStr a) (LNum b) = False"
| "less_eq_label (LStr a) (LStr b) = (a \<le> b)"

definition less_label :: "label \<Rightarrow> label \<Rightarrow> bool" where
  "less_label a b = (a \<le> b \<and> \<not> b \<le> a)"

instance
proof
  fix x y z :: label
  show "(x < y) = (x \<le> y \<and> \<not> y \<le> x)"
    by (simp add: less_label_def)
  show "x \<le> x"
    by (cases x) auto
  show "x \<le> y \<Longrightarrow> y \<le> z \<Longrightarrow> x \<le> z"
    by (cases x; cases y; cases z) auto
  show "x \<le> y \<Longrightarrow> y \<le> x \<Longrightarrow> x = y"
    by (cases x; cases y) auto
  show "x \<le> y \<or> y \<le> x"
    by (cases x; cases y) auto
qed

end

definition labels :: "column \<Rightarrow> label option list" where
  "labels col =
     (case col of
        Float64 xs \<Rightarrow> map (map_option LNum) xs
      | Int64 xs \<Rightarrow> map (\<lambda>i. Some (LNum (real_of_int i))) xs
      | Object xs \<Rightarrow> map (map_option LStr) xs)"

text \<open>
  \<open>groupby\<close> with its defaults (\<open>sort=True\<close>, \<open>dropna=True\<close>): the groups are the
  distinct present keys, in ascending order.
\<close>

definition group_keys :: "label option list \<Rightarrow> label list" where
  "group_keys ks = sort (remdups (dropna ks))"

text \<open>
  The \<open>mean\<close> aggregation: one pass over the rows that adds each present value to the
  running sum of its group and counts it; a row with a missing key or a missing value
  adds nothing. The mean of a group is its sum over its count, NaN for a count of 0.
\<close>

fun group_sums ::
  "(label option \<times> real option) list \<Rightarrow> (label \<Rightarrow> real \<times> nat) \<Rightarrow> (label \<Rightarrow> real \<times> nat)" where
  "group_sums [] acc = acc"
| "group_sums ((Some k, Some v) # rows) acc =
     group_sums rows (acc(k := (fst (acc k) + v, snd (acc k) + 1)))"
| "group_sums (_ # rows) acc = group_sums rows acc"

definition group_mean :: "label option list \<Rightarrow> real option list \<Rightarrow> label \<Rightarrow> real option" where
  "group_mean ks vs k =
     (case group_sums (zip ks vs) (\<lambda>_. (0, 0)) k of
        (sumx, nobs) \<Rightarrow> if nobs = 0 then None else Some (sumx / real nobs))"

text \<open>A named column of the frame as floats, for an aggregation.\<close>

definition numeric_column :: "dataframe \<Rightarrow> string \<Rightarrow> error + real option list" where
  "numeric_column df c = (case getitem df c of Inl e \<Rightarrow> Inl e | Inr col \<Rightarrow> to_float col)"

record region_row =
  Region :: label
  Median_Income :: "real option"
  Poverty_Rate :: "real option"
  Cancer_Rate :: "real option"

text \<open>
  \<open>df.groupby('Region').agg({'Median_Income': 'mean', 'Poverty_Rate': 'mean',
  'Cancer_Rate': 'mean'}).reset_index()\<close>. The aggregation first checks that the three
  columns exist and raises \<open>KeyError\<close> with the missing names otherwise.
\<close>

definition regional_stats :: "dataframe \<Rightarrow> error + region_row list" where
  "regional_stats df =
     (case getitem df ''Region'' of
        Inl e \<Rightarrow> Inl e
      | Inr region \<Rightarrow>
     (let missing = filter (\<lambda>c. c \<notin> set (columns df))
                      [''Cancer_Rate'', ''Median_Income'', ''Poverty_Rate'']
      in if missing \<noteq> [] then Inl (KeyError missing)
      else
     (case numeric_column df ''Median_Income'' of
        Inl e \<Rightarrow> Inl e
      | Inr mi \<Rightarrow>
     (case numeric_column df ''Poverty_Rate'' of
        Inl e \<Rightarrow> Inl e
      | Inr pr \<Rightarrow>
     (case numeric_column df ''Cancer_Rate'' of
        Inl e \<Rightarrow> Inl e
      | Inr cr \<Rightarrow>
          Inr (map (\<lambda>k. \<lparr>Region = k,
                          Median_Income = group_mean (labels region) mi k,
                          Poverty_Rate = group_mean (labels region) pr k,
                          Cancer_Rate = group_mean (labels region) cr k\<rparr>)
                 (group_keys (labels region))))))))"

text \<open>
  \<open>idxmax\<close> and \<open>idxmin\<close> skip NaN and return the position of the first occurrence of
  the extreme value: a later value replaces the best one only when it is strictly
  better. With no present value there is no position and the lookup fails.
\<close>

fun first_extreme ::
  "(real \<Rightarrow> real \<Rightarrow> bool) \<Rightarrow> real option list \<Rightarrow> nat \<Rightarrow> (nat \<times> real) option
     \<Rightarrow> (nat \<times> real) option" where
  "first_extreme better [] i best = best"
| "first_extreme better (None # vs) i best = first_extreme better vs (Suc i) best"
| "first_extreme better (Some v # vs) i best =
     first_extreme better vs (Suc i)
       (case best of
          None \<Rightarrow> Some (i, v)
        | Some (j, m) \<Rightarrow> if better v m then Some (i, v) else Some (j, m))"

definition idxmax :: "real option list \<Rightarrow> error + nat" where
  "idxmax vs =
     (case first_extreme (\<lambda>v m. v > m) vs 0 None of
        None \<Rightarrow> Inl ValueError
      | Some (i, m) \<Rightarrow> Inr i)"

definition idxmin :: "real option list \<Rightarrow> error + nat" where
  "idxmin vs =
     (case first_extreme (\<lambda>v m. v < m) vs 0 None of
        None \<Rightarrow> Inl ValueError
      | Some (i, m) \<Rightarrow> Inr i)"

datatype regional_view =
    RegionWarning
  | RegionalView "region_row list" region_row region_row

text \<open>
  The regional tab: the table of regional means and its rows of highest and lowest
  cancer rate, or the warning when the frame has no \<open>Region\<close> column.
\<close>

definition regional_insights :: "dataframe \<Rightarrow> error + regional_view" where
  "regional_insights df =
     (if ''Region'' \<in> set (columns df) then
        (case regional_stats df of
           Inl e \<Rightarrow> Inl e
         | Inr stats \<Rightarrow>
        (case idxmax (map Cancer_Rate stats) of
           Inl e \<Rightarrow> Inl e
         | Inr hi \<Rightarrow>
        (case idxmin (map Cancer_Rate stats) of
           Inl e \<Rightarrow> Inl e
         | Inr lo \<Rightarrow> Inr (RegionalView stats (stats ! hi) (stats ! lo)))))
      else Inr RegionWarning)"

text \<open>
  The specification's words, for comparison with the code. The mean of a metric over a
  region is the sum of the present values of the region's rows over their number, and
  undefined when there is none.
\<close>

fun group_values :: "label option list \<Rightarrow> real option list \<Rightarrow> label \<Rightarrow> real list" where
  "group_values (Some k' # ks) (Some v # vs) k =
     (if k' = k then v # group_values ks vs k else group_values ks vs k)"
| "group_values (_ # ks) (_ # vs) k = group_values ks vs k"
| "group_values _ _ k = []"

definition spec_mean :: "real list \<Rightarrow> real option" where
  "spec_mean vs = (if vs = [] then None else Some (sum_list vs / real (length vs)))"

text \<open>
  The specification's ranking: entries sorted by the metric in the chosen direction,
  ties broken by region label ascending.
\<close>

datatype direction = Ascending | Descending

definition spec_rank_regions :: "direction \<Rightarrow> (label \<times> real) list \<Rightarrow> (label \<times> real) list" where
  "spec_rank_regions d entries =
     sort_key (\<lambda>(l, v). (if d = Descending then - v else v, l)) entries"

text \<open>The entries of the regional table that have a cancer rate.\<close>

fun rate_entries :: "region_row list \<Rightarrow> (label \<times> real) list" where
  "rate_entries [] = []"
| "rate_entries (r # rs) =
     (case Cancer_Rate r of
        None \<Rightarrow> rate_entries rs
      | Some v \<Rightarrow> (Region r, v) # rate_entries rs)"

section \<open>Lemmas on the correlation coefficient\<close>

lemma valid_pairs_swap: "valid_pairs b a = map (\<lambda>(x, y). (y, x)) (valid_pairs a b)"
  by (induction a b rule: valid_pairs.induct) auto

lemma covxy_swap: "covxy (map (\<lambda>(x, y). (y, x)) ps) = covxy ps"
proof -
  have f: "map fst (map (\<lambda>(x, y). (y, x)) ps) = map snd ps"
    by (induction ps) auto
  have s: "map snd (map (\<lambda>(x, y). (y, x)) ps) = map fst ps"
    by (induction ps) auto
  show ?thesis
    unfolding covxy_def f s
    by (simp add: comp_def split_def mult.commute)
qed

lemma fst_swap: "map fst (map (\<lambda>(x, y). (y, x)) ps) = map snd ps"
  by (induction ps) auto

lemma snd_swap: "map snd (map (\<lambda>(x, y). (y, x)) ps) = map fst ps"
  by (induction ps) auto

lemma nancorr_commute: "nancorr a b = nancorr b a"
proof -
  have "valid_pairs b a = map (\<lambda>(x, y). (y, x)) (valid_pairs a b)"
    by (rule valid_pairs_swap)
  then have "nancorr b a =
      (let ps = map (\<lambda>(x, y). (y, x)) (valid_pairs a b);
           divisor = sqrt (ssqd (map fst ps) * ssqd (map snd ps))
       in if ps = [] then None
          else if divisor \<noteq> 0 then Some (covxy ps / divisor)
          else None)"
    by (simp only: nancorr_def)
  also have "\<dots> = nancorr a b"
    unfolding Let_def fst_swap snd_swap covxy_swap nancorr_def
    by (simp add: mult.commute)
  finally show ?thesis by simp
qed

lemma valid_pairs_self: "valid_pairs a a = map (\<lambda>x. (x, x)) (dropna a)"
  by (induction a rule: dropna.induct) auto

lemma covxy_self: "covxy (map (\<lambda>x. (x, x)) xs) = ssqd xs"
  by (simp add: covxy_def ssqd_def comp_def)

lemma ssqd_nonneg: "0 \<le> ssqd xs"
  unfolding ssqd_def by (rule sum_list_nonneg) auto

lemma nancorr_self: "ssqd (dropna a) \<noteq> 0 \<Longrightarrow> nancorr a a = Some 1"
proof -
  assume nz: "ssqd (dropna a) \<noteq> 0"
  have ne: "dropna a \<noteq> []" using nz by (auto simp: ssqd_def)
  have "sqrt (ssqd (dropna a) * ssqd (dropna a)) = ssqd (dropna a)"
    using ssqd_nonneg [of "dropna a"] by simp
  then show ?thesis using nz ne
    by (simp add: nancorr_def Let_def valid_pairs_self covxy_self comp_def)
qed

text \<open>Cauchy-Schwarz for finite sums over a list of pairs.\<close>

lemma sum_sq_expand:
  "sum_list (map (\<lambda>(u, v). (a * v - b * u) * (a * v - b * u)) ps)
   = a * a * sum_list (map (\<lambda>(u, v). v * v) ps)
     - 2 * a * b * sum_list (map (\<lambda>(u, v). u * v) ps)
     + b * b * sum_list (map (\<lambda>(u, v). u * u) ps)"
  for a b :: real
  by (induction ps) (auto simp: algebra_simps)

lemma sum_sq_zero:
  "sum_list (map (\<lambda>(u, v). u * u) ps) = 0 \<Longrightarrow> sum_list (map (\<lambda>(u, v). u * v) ps) = 0"
  for ps :: "(real \<times> real) list"
proof (induction ps)
  case Nil
  then show ?case by simp
next
  case (Cons p ps)
  obtain u v where p: "p = (u, v)" by (cases p)
  have nn: "0 \<le> sum_list (map (\<lambda>(u, v). u * u) ps)"
    by (rule sum_list_nonneg) auto
  have "u * u + sum_list (map (\<lambda>(u, v). u * u) ps) = 0"
    using Cons.prems p by simp
  moreover have "0 \<le> u * u" by simp
  ultimately have "u * u = 0" and "sum_list (map (\<lambda>(u, v). u * u) ps) = 0"
    using nn by linarith+
  then show ?case using Cons.IH p by simp
qed

lemma cauchy_schwarz_list:
  fixes ps :: "(real \<times> real) list"
  defines "A \<equiv> sum_list (map (\<lambda>(u, v). u * u) ps)"
    and "B \<equiv> sum_list (map (\<lambda>(u, v). u * v) ps)"
    and "C \<equiv> sum_list (map (\<lambda>(u, v). v * v) ps)"
  shows "B * B \<le> A * C"
proof (cases "A = 0")
  case True
  then have "B = 0" unfolding A_def B_def by (rule sum_sq_zero)
  with True show ?thesis by simp
next
  case False
  have "0 \<le> A" unfolding A_def by (rule sum_list_nonneg) auto
  with False have pos: "0 < A" by simp
  have "0 \<le> sum_list (map (\<lambda>(u, v). (A * v - B * u) * (A * v - B * u)) ps)"
    by (rule sum_list_nonneg) auto
  also have "\<dots> = A * A * C - 2 * A * B * B + B * B * A"
    unfolding sum_sq_expand A_def B_def C_def by simp
  also have "\<dots> = A * (A * C - B * B)" by (simp add: algebra_simps)
  finally have "0 \<le> A * (A * C - B * B)" .
  with pos have "0 \<le> A * C - B * B" by (simp add: zero_le_mult_iff)
  then show ?thesis by simp
qed

lemma covxy_sq_le: "covxy ps * covxy ps \<le> ssqd (map fst ps) * ssqd (map snd ps)"
proof -
  define mx where "mx = mean (map fst ps)"
  define my where "my = mean (map snd ps)"
  define qs where "qs = map (\<lambda>(x, y). (x - mx, y - my)) ps"
  have c: "covxy ps = sum_list (map (\<lambda>(u, v). u * v) qs)"
    by (simp add: covxy_def qs_def mx_def my_def comp_def split_def)
  have x: "ssqd (map fst ps) = sum_list (map (\<lambda>(u, v). u * u) qs)"
    by (simp add: ssqd_def qs_def mx_def comp_def split_def)
  have y: "ssqd (map snd ps) = sum_list (map (\<lambda>(u, v). v * v) qs)"
    by (simp add: ssqd_def qs_def my_def comp_def split_def)
  show ?thesis unfolding c x y by (rule cauchy_schwarz_list)
qed

lemma nancorr_range: "nancorr a b = Some r \<Longrightarrow> - 1 \<le> r \<and> r \<le> 1"
proof -
  assume h: "nancorr a b = Some r"
  define ps where "ps = valid_pairs a b"
  define d where "d = sqrt (ssqd (map fst ps) * ssqd (map snd ps))"
  from h have d0: "d \<noteq> 0" and r: "r = covxy ps / d"
    by (auto simp: nancorr_def Let_def ps_def d_def split: if_splits)
  have "0 \<le> d" unfolding d_def by (simp add: ssqd_nonneg)
  with d0 have dpos: "0 < d" by simp
  have "d * d = ssqd (map fst ps) * ssqd (map snd ps)"
    unfolding d_def by (simp add: ssqd_nonneg)
  with covxy_sq_le [of ps] have "covxy ps * covxy ps \<le> d * d" by simp
  then have "\<bar>covxy ps\<bar> \<le> \<bar>d\<bar>"
    by (simp add: abs_le_square_iff power2_eq_square)
  with dpos have "\<bar>covxy ps\<bar> \<le> d" by simp
  then have "- d \<le> covxy ps" and "covxy ps \<le> d" by linarith+
  with dpos show ?thesis unfolding r
    by (simp add: pos_le_divide_eq pos_divide_le_eq)
qed

lemma all_equal_ssqd: "\<forall>x\<in>set xs. x = c \<Longrightarrow> ssqd xs = 0"
proof (cases "xs = []")
  case True
  then show ?thesis by (simp add: ssqd_def)
next
  case False
  assume all: "\<forall>x\<in>set xs. x = c"
  then have "sum_list xs = real (length xs) * c"
    by (induction xs) (auto simp: algebra_simps)
  with False have m: "mean xs = c" by (simp add: mean_def)
  from all have "sum_list (map (\<lambda>x. (x - c) * (x - c)) xs) = 0"
    by (induction xs) auto
  then show ?thesis by (simp add: ssqd_def m)
qed

lemma is_constant_ssqd: "is_constant xs \<Longrightarrow> ssqd xs = 0"
proof (cases xs)
  case Nil
  then show ?thesis by (simp add: ssqd_def)
next
  case (Cons x ys)
  assume "is_constant xs"
  with Cons have "\<forall>y\<in>set xs. y = x"
    by (simp add: is_constant_def list_all_iff)
  then show ?thesis by (rule all_equal_ssqd)
qed

lemma set_dropna: "set (dropna a) = {x. Some x \<in> set a}"
  by (induction a rule: dropna.induct) auto

lemma valid_pairs_present: "(x, y) \<in> set (valid_pairs a b) \<Longrightarrow> Some x \<in> set a"
  by (induction a b rule: valid_pairs.induct) auto

lemma valid_pairs_fst: "set (map fst (valid_pairs a b)) \<subseteq> set (dropna a)"
  by (auto simp: set_dropna dest: valid_pairs_present)

lemma is_constant_iff: "is_constant xs = (\<forall>x\<in>set xs. \<forall>y\<in>set xs. x = y)"
proof (cases xs)
  case Nil
  then show ?thesis by (simp add: is_constant_def)
next
  case (Cons a as)
  have "is_constant xs = (\<forall>y\<in>set xs. y = a)"
    using Cons by (simp add: is_constant_def list_all_iff)
  also have "\<dots> = (\<forall>x\<in>set xs. \<forall>y\<in>set xs. x = y)"
  proof
    assume "\<forall>y\<in>set xs. y = a"
    then show "\<forall>x\<in>set xs. \<forall>y\<in>set xs. x = y" by metis
  next
    assume h: "\<forall>x\<in>set xs. \<forall>y\<in>set xs. x = y"
    have "a \<in> set xs" using Cons by simp
    with h show "\<forall>y\<in>set xs. y = a" by blast
  qed
  finally show ?thesis .
qed

lemma is_constant_subset: "is_constant xs \<Longrightarrow> set ys \<subseteq> set xs \<Longrightarrow> is_constant ys"
  unfolding is_constant_iff by blast

lemma nancorr_constant: "is_constant (dropna a) \<Longrightarrow> nancorr a b = None"
proof -
  assume "is_constant (dropna a)"
  then have "is_constant (map fst (valid_pairs a b))"
    using valid_pairs_fst by (rule is_constant_subset)
  then have "ssqd (map fst (valid_pairs a b)) = 0" by (rule is_constant_ssqd)
  then show ?thesis by (simp add: nancorr_def Let_def)
qed

lemma corr_nth:
  "i < length numeric_df \<Longrightarrow> j < length numeric_df \<Longrightarrow>
   corr numeric_df ! i ! j =
     (case (to_float (snd (numeric_df ! i)), to_float (snd (numeric_df ! j))) of
        (Inr xs, Inr ys) \<Rightarrow> nancorr xs ys
      | _ \<Rightarrow> None)"
  by (simp add: corr_def split_def)

lemma corr_nth_commute:
  "i < length numeric_df \<Longrightarrow> j < length numeric_df \<Longrightarrow>
   corr numeric_df ! i ! j = corr numeric_df ! j ! i"
  by (simp add: corr_nth nancorr_commute split: sum.splits)

lemma series_corr_commute: "series_corr s t = series_corr t s"
  by (simp add: series_corr_def to_float_def nancorr_commute split: column.splits)

section \<open>Lemmas on the demo data\<close>

lemma length_draws: "draws f n g = (xs, g') \<Longrightarrow> length xs = n"
  by (induction n arbitrary: g xs g') (auto split: prod.splits)

lemma length_normal: "normal np loc scale n g = (xs, g') \<Longrightarrow> length xs = n"
  by (simp add: normal_def length_draws)

lemma length_choice: "choice np a n g = (xs, g') \<Longrightarrow> length xs = n"
  by (auto simp: choice_def split: prod.splits dest: length_draws)

text \<open>The floor of line 71: no value of the \<open>Cancer_Rate\<close> column is below 50.\<close>

lemma cancer_rate_floored:
  "\<exists>xs. getitem (fst (load_demo_data np g)) ''Cancer_Rate'' = Inr (Float64 xs)
     \<and> list_all (\<lambda>v. case v of None \<Rightarrow> False | Some x \<Rightarrow> 50 \<le> x) xs"
  by (auto simp: load_demo_data_def Let_def getitem_def list_all_iff split: prod.splits)

section \<open>Lemmas on the relationship explorer\<close>

lemma select_dtypes_numeric:
  "i < length (select_dtypes df) \<Longrightarrow> is_numeric (snd (select_dtypes df ! i))"
proof -
  assume "i < length (select_dtypes df)"
  then have "select_dtypes df ! i \<in> set (select_dtypes df)" by (rule nth_mem)
  then show ?thesis by (auto simp: select_dtypes_def)
qed

lemma getitem_select_dtypes:
  assumes "distinct (columns df)" and "i < length (select_dtypes df)"
  shows "getitem df (fst (select_dtypes df ! i)) = Inr (snd (select_dtypes df ! i))"
proof -
  have "select_dtypes df ! i \<in> set (select_dtypes df)" using assms(2) by (rule nth_mem)
  then have "(fst (select_dtypes df ! i), snd (select_dtypes df ! i)) \<in> set df"
    by (simp add: select_dtypes_def)
  with assms(1) have "map_of df (fst (select_dtypes df ! i)) = Some (snd (select_dtypes df ! i))"
    by (simp add: columns_def)
  then show ?thesis by (simp add: getitem_def)
qed

lemma series_corr_numeric:
  "is_numeric s \<Longrightarrow> is_numeric t \<Longrightarrow> \<exists>c. series_corr s t = Inr c"
  by (auto simp: is_numeric_def series_corr_def to_float_def split: column.splits)

lemma explorer_fails:
  assumes "length (select_dtypes df) < 6"
  shows "\<exists>e. relationship_explorer df = Inl e"
proof -
  let ?n = "length (select_dtypes df)"
  consider "?n = 0" | "0 < ?n" "?n < 3" | "3 \<le> ?n" "?n < 6" using assms by linarith
  then show ?thesis
  proof cases
    case 1
    then show ?thesis by (simp add: relationship_explorer_def selectbox_def columns_def Let_def)
  next
    case 2
    then show ?thesis by (auto simp: relationship_explorer_def selectbox_def columns_def Let_def)
  next
    case 3
    then show ?thesis by (auto simp: relationship_explorer_def selectbox_def columns_def Let_def)
  qed
qed

lemma explorer_succeeds:
  assumes d: "distinct (columns df)" and n: "6 \<le> length (select_dtypes df)"
  shows "\<exists>r. relationship_explorer df = Inr r
           \<and> x_col r = fst (select_dtypes df ! 2) \<and> y_col r = fst (select_dtypes df ! 5)"
proof -
  have l2: "2 < length (select_dtypes df)" and l5: "5 < length (select_dtypes df)"
    using n by simp_all
  have ne: "select_dtypes df \<noteq> []" using n by auto
  have gx: "getitem df (fst (select_dtypes df ! 2)) = Inr (snd (select_dtypes df ! 2))"
    using d l2 by (rule getitem_select_dtypes)
  have gy: "getitem df (fst (select_dtypes df ! 5)) = Inr (snd (select_dtypes df ! 5))"
    using d l5 by (rule getitem_select_dtypes)
  obtain c where c: "series_corr (snd (select_dtypes df ! 2)) (snd (select_dtypes df ! 5)) = Inr c"
    using series_corr_numeric [OF select_dtypes_numeric [OF l2] select_dtypes_numeric [OF l5]]
    by blast
  show ?thesis
    using l2 l5 ne gx gy c
    by (simp add: relationship_explorer_def selectbox_def columns_def Let_def)
qed

section \<open>Lemmas on the regional aggregation\<close>

lemma group_sums_values:
  "group_sums (zip ks vs) acc k =
     (fst (acc k) + sum_list (group_values ks vs k),
      snd (acc k) + length (group_values ks vs k))"
  by (induction ks vs k arbitrary: acc rule: group_values.induct) auto

lemma group_mean_spec: "group_mean ks vs k = spec_mean (group_values ks vs k)"
  by (simp add: group_mean_def group_sums_values spec_mean_def)

lemma group_keys_sorted: "sorted (group_keys ks)"
  by (simp add: group_keys_def)

lemma group_keys_distinct: "distinct (group_keys ks)"
  by (simp add: group_keys_def)

lemma group_keys_set: "set (group_keys ks) = {k. Some k \<in> set ks}"
  by (simp add: group_keys_def set_dropna)

lemma getitem_columns: "getitem df c = Inr col \<Longrightarrow> c \<in> set (columns df)"
proof -
  assume "getitem df c = Inr col"
  then have "map_of df c \<noteq> None"
    by (auto simp: getitem_def split: option.splits)
  then show ?thesis
    by (simp add: map_of_eq_None_iff columns_def)
qed

lemma numeric_column_columns: "numeric_column df c = Inr xs \<Longrightarrow> c \<in> set (columns df)"
  by (auto simp: numeric_column_def split: sum.splits dest: getitem_columns)

lemma regional_stats_value:
  assumes "getitem df ''Region'' = Inr region"
    and "numeric_column df ''Median_Income'' = Inr mi"
    and "numeric_column df ''Poverty_Rate'' = Inr pr"
    and "numeric_column df ''Cancer_Rate'' = Inr cr"
  shows "regional_stats df =
     Inr (map (\<lambda>k. \<lparr>Region = k,
                     Median_Income = group_mean (labels region) mi k,
                     Poverty_Rate = group_mean (labels region) pr k,
                     Cancer_Rate = group_mean (labels region) cr k\<rparr>)
            (group_keys (labels region)))"
  using assms numeric_column_columns [OF assms(2)] numeric_column_columns [OF assms(3)]
    numeric_column_columns [OF assms(4)]
  by (simp add: regional_stats_def)


lemma first_extreme_some:
  fixes f :: "real \<Rightarrow> real"
  assumes B: "\<And>v m. better v m = (f v < f m)"
  shows "j < i \<Longrightarrow>
    \<exists>r m. first_extreme better vs i (Some (j, bm)) = Some (r, m)
      \<and> ((r = j \<and> m = bm) \<or> (i \<le> r \<and> r < i + length vs \<and> vs ! (r - i) = Some m \<and> f m < f bm))
      \<and> (\<forall>k<length vs. \<forall>v. vs ! k = Some v \<longrightarrow> f m \<le> f v \<and> (f v = f m \<longrightarrow> r \<le> i + k))"
proof (induction vs arbitrary: i j bm)
  case Nil
  then show ?case by simp
next
  case (Cons x vs)
  show ?case
  proof (cases x)
    case None
    from Cons.prems have "j < Suc i" by simp
    from Cons.IH [OF this, of bm] obtain r m where
      e: "first_extreme better vs (Suc i) (Some (j, bm)) = Some (r, m)"
      and p: "(r = j \<and> m = bm) \<or> (Suc i \<le> r \<and> r < Suc i + length vs \<and> vs ! (r - Suc i) = Some m \<and> f m < f bm)"
      and q: "\<forall>k<length vs. \<forall>v. vs ! k = Some v \<longrightarrow> f m \<le> f v \<and> (f v = f m \<longrightarrow> r \<le> Suc i + k)"
      by blast
    have 1: "first_extreme better (x # vs) i (Some (j, bm)) = Some (r, m)"
      using e None by simp
    have 2: "(r = j \<and> m = bm) \<or> (i \<le> r \<and> r < i + length (x # vs) \<and> (x # vs) ! (r - i) = Some m \<and> f m < f bm)"
      using p by (auto simp: nth_Cons' Suc_diff_le)
    have 3: "\<forall>k<length (x # vs). \<forall>v. (x # vs) ! k = Some v \<longrightarrow> f m \<le> f v \<and> (f v = f m \<longrightarrow> r \<le> i + k)"
    proof (intro allI impI)
      fix k v assume k: "k < length (x # vs)" and v: "(x # vs) ! k = Some v"
      from v None obtain k' where k': "k = Suc k'" by (cases k) auto
      with k v q show "f m \<le> f v \<and> (f v = f m \<longrightarrow> r \<le> i + k)" by auto
    qed
    from 1 2 3 show ?thesis by blast
  next
    case (Some w)
    define nb where "nb = (if f w < f bm then (i, w) else (j, bm))"
    have lt: "fst nb < Suc i" using Cons.prems by (simp add: nb_def)
    from Cons.IH [OF lt, of "snd nb"] obtain r m where
      e: "first_extreme better vs (Suc i) (Some nb) = Some (r, m)"
      and p: "(r = fst nb \<and> m = snd nb) \<or> (Suc i \<le> r \<and> r < Suc i + length vs \<and> vs ! (r - Suc i) = Some m \<and> f m < f (snd nb))"
      and q: "\<forall>k<length vs. \<forall>v. vs ! k = Some v \<longrightarrow> f m \<le> f v \<and> (f v = f m \<longrightarrow> r \<le> Suc i + k)"
      by auto
    have 1: "first_extreme better (x # vs) i (Some (j, bm)) = Some (r, m)"
    proof (cases "f w < f bm")
      case True
      with e Some show ?thesis by (simp add: nb_def B)
    next
      case False
      with e Some show ?thesis by (simp add: nb_def B)
    qed
    have le: "f m \<le> f (snd nb)" using p by auto
    have nbw: "f (snd nb) \<le> f w" and nbb: "f (snd nb) \<le> f bm"
      by (simp_all add: nb_def)
    have 2: "(r = j \<and> m = bm) \<or> (i \<le> r \<and> r < i + length (x # vs) \<and> (x # vs) ! (r - i) = Some m \<and> f m < f bm)"
    proof (cases "f w < f bm")
      case True
      then have nb: "nb = (i, w)" by (simp add: nb_def)
      from p show ?thesis
      proof
        assume "r = fst nb \<and> m = snd nb"
        then show ?thesis using nb True Some by simp
      next
        assume a: "Suc i \<le> r \<and> r < Suc i + length vs \<and> vs ! (r - Suc i) = Some m \<and> f m < f (snd nb)"
        then have "f m < f bm" using nbb by (auto intro: less_le_trans)
        with a show ?thesis by (auto simp: nth_Cons' Suc_diff_le)
      qed
    next
      case False
      then have nb: "nb = (j, bm)" by (simp add: nb_def)
      from p show ?thesis unfolding nb by (auto simp: nth_Cons' Suc_diff_le)
    qed
    have 3: "\<forall>k<length (x # vs). \<forall>v. (x # vs) ! k = Some v \<longrightarrow> f m \<le> f v \<and> (f v = f m \<longrightarrow> r \<le> i + k)"
    proof (intro allI impI)
      fix k v assume k: "k < length (x # vs)" and v: "(x # vs) ! k = Some v"
      show "f m \<le> f v \<and> (f v = f m \<longrightarrow> r \<le> i + k)"
      proof (cases k)
        case 0
        with v Some have vw: "v = w" by simp
        have a: "f m \<le> f v" using le nbw unfolding vw by (rule order_trans)
        have b: "f v = f m \<longrightarrow> r \<le> i + k"
        proof
          assume eq: "f v = f m"
          from p show "r \<le> i + k"
          proof
            assume rm: "r = fst nb \<and> m = snd nb"
            show ?thesis
            proof (cases "f w < f bm")
              case True
              then show ?thesis using rm by (simp add: nb_def)
            next
              case False
              then show ?thesis using rm Cons.prems by (simp add: nb_def)
            qed
          next
            assume "Suc i \<le> r \<and> r < Suc i + length vs \<and> vs ! (r - Suc i) = Some m \<and> f m < f (snd nb)"
            then have "f m < f w" using nbw by (auto intro: less_le_trans)
            with eq vw show ?thesis by simp
          qed
        qed
        from a b show ?thesis by simp
      next
        case (Suc k')
        with k v q show ?thesis by auto
      qed
    qed
    from 1 2 3 show ?thesis by blast
  qed
qed

lemma first_extreme_none:
  fixes f :: "real \<Rightarrow> real"
  assumes B: "\<And>v m. better v m = (f v < f m)"
  shows "first_extreme better vs i None = Some (r, m) \<Longrightarrow>
      i \<le> r \<and> r < i + length vs \<and> vs ! (r - i) = Some m
      \<and> (\<forall>k<length vs. \<forall>v. vs ! k = Some v \<longrightarrow> f m \<le> f v \<and> (f v = f m \<longrightarrow> r \<le> i + k))"
proof (induction vs arbitrary: i)
  case Nil
  then show ?case by simp
next
  case (Cons x vs)
  show ?case
  proof (cases x)
    case None
    with Cons.prems have "first_extreme better vs (Suc i) None = Some (r, m)" by simp
    from Cons.IH [OF this] have
      p: "Suc i \<le> r \<and> r < Suc i + length vs \<and> vs ! (r - Suc i) = Some m"
      and q: "\<forall>k<length vs. \<forall>v. vs ! k = Some v \<longrightarrow> f m \<le> f v \<and> (f v = f m \<longrightarrow> r \<le> Suc i + k)"
      by blast+
    have 2: "i \<le> r \<and> r < i + length (x # vs) \<and> (x # vs) ! (r - i) = Some m"
      using p by (auto simp: nth_Cons' Suc_diff_le)
    have 3: "\<forall>k<length (x # vs). \<forall>v. (x # vs) ! k = Some v \<longrightarrow> f m \<le> f v \<and> (f v = f m \<longrightarrow> r \<le> i + k)"
    proof (intro allI impI)
      fix k v assume k: "k < length (x # vs)" and v: "(x # vs) ! k = Some v"
      from v None obtain k' where k': "k = Suc k'" by (cases k) auto
      with k v q show "f m \<le> f v \<and> (f v = f m \<longrightarrow> r \<le> i + k)" by auto
    qed
    from 2 3 show ?thesis by blast
  next
    case (Some w)
    have "i < Suc i" by simp
    from first_extreme_some [of better f, OF B this, of vs w]
    obtain r' m' where
      e: "first_extreme better vs (Suc i) (Some (i, w)) = Some (r', m')"
      and p: "(r' = i \<and> m' = w) \<or> (Suc i \<le> r' \<and> r' < Suc i + length vs \<and> vs ! (r' - Suc i) = Some m' \<and> f m' < f w)"
      and q: "\<forall>k<length vs. \<forall>v. vs ! k = Some v \<longrightarrow> f m' \<le> f v \<and> (f v = f m' \<longrightarrow> r' \<le> Suc i + k)"
      by blast
    from Cons.prems Some e have eq: "r' = r" "m' = m" by simp_all
    have 2: "i \<le> r \<and> r < i + length (x # vs) \<and> (x # vs) ! (r - i) = Some m"
      using p Some unfolding eq by (auto simp: nth_Cons' Suc_diff_le)
    have 3: "\<forall>k<length (x # vs). \<forall>v. (x # vs) ! k = Some v \<longrightarrow> f m \<le> f v \<and> (f v = f m \<longrightarrow> r \<le> i + k)"
    proof (intro allI impI)
      fix k v assume k: "k < length (x # vs)" and v: "(x # vs) ! k = Some v"
      show "f m \<le> f v \<and> (f v = f m \<longrightarrow> r \<le> i + k)"
      proof (cases k)
        case 0
        with v Some have "v = w" by simp
        with p 0 show ?thesis unfolding eq by auto
      next
        case (Suc k')
        with k v q show ?thesis unfolding eq by auto
      qed
    qed
    from 2 3 show ?thesis by blast
  qed
qed

lemma idxmax_first:
  assumes "idxmax vs = Inr hi"
  shows "hi < length vs \<and> (\<exists>m. vs ! hi = Some m
     \<and> (\<forall>k<length vs. \<forall>v. vs ! k = Some v \<longrightarrow> v \<le> m \<and> (v = m \<longrightarrow> hi \<le> k)))"
proof -
  from assms obtain m where e: "first_extreme (\<lambda>v m. v > m) vs 0 None = Some (hi, m)"
    by (auto simp: idxmax_def split: option.splits)
  have B: "\<And>v m :: real. (v > m) = (- v < - m)" by simp
  from first_extreme_none [of "\<lambda>v m. v > m" uminus, OF B e]
  show ?thesis by auto
qed

lemma idxmin_first:
  assumes "idxmin vs = Inr lo"
  shows "lo < length vs \<and> (\<exists>m. vs ! lo = Some m
     \<and> (\<forall>k<length vs. \<forall>v. vs ! k = Some v \<longrightarrow> m \<le> v \<and> (v = m \<longrightarrow> lo \<le> k)))"
proof -
  from assms obtain m where e: "first_extreme (\<lambda>v m. v < m) vs 0 None = Some (lo, m)"
    by (auto simp: idxmin_def split: option.splits)
  have B: "\<And>v m :: real. (v < m) = ((\<lambda>x. x) v < (\<lambda>x. x) m)" by simp
  from first_extreme_none [of "\<lambda>v m. v < m" "\<lambda>x. x", OF B e]
  show ?thesis by auto
qed

lemma regional_stats_keys:
  assumes "regional_stats df = Inr stats"
  shows "sorted (map Region stats) \<and> distinct (map Region stats)"
proof -
  from assms obtain region mi pr cr where
    "stats = map (\<lambda>k. \<lparr>Region = k,
                     Median_Income = group_mean (labels region) mi k,
                     Poverty_Rate = group_mean (labels region) pr k,
                     Cancer_Rate = group_mean (labels region) cr k\<rparr>)
            (group_keys (labels region))"
    by (auto simp: regional_stats_def Let_def split: sum.splits if_splits)
  then have "map Region stats = group_keys (labels region)"
    by (simp add: comp_def)
  then show ?thesis
    by (simp add: group_keys_sorted group_keys_distinct)
qed

lemma rate_entries_set:
  "((l, v) \<in> set (rate_entries stats)) =
     (\<exists>row\<in>set stats. Region row = l \<and> Cancer_Rate row = Some v)"
  by (induction stats) (auto split: option.splits)

lemma hd_sort_key_least:
  fixes f :: "'a \<Rightarrow> 'k::linorder"
  assumes x: "x \<in> set xs" and least: "\<forall>y\<in>set xs. f x \<le> f y" and inj: "inj_on f (set xs)"
  shows "hd (sort_key f xs) = x"
proof -
  let ?ys = "sort_key f xs"
  have ne: "?ys \<noteq> []" using x by (metis empty_iff empty_set set_sort)
  then obtain h t where ys: "?ys = h # t" by (cases ?ys) auto
  have hin: "h \<in> set xs" using ys by (metis list.set_intros(1) set_sort)
  have xin: "x \<in> set ?ys" using x by simp
  have "sorted (map f ?ys)" by simp
  then have "\<forall>y\<in>set t. f h \<le> f y" unfolding ys by simp
  with xin have "f h \<le> f x" unfolding ys by auto
  moreover have "f x \<le> f h" using least hin by blast
  ultimately have "f h = f x" by simp
  with inj hin x have "h = x" by (auto dest: inj_onD)
  then show ?thesis by (simp add: ys)
qed

lemma rank_key_inj: "inj_on (\<lambda>(l :: label, v :: real). (if d = Descending then - v else v, l)) A"
  by (auto simp: inj_on_def split: if_splits)

lemma sorted_rows:
  assumes "sorted (map Region stats)" and "i \<le> k" and "k < length stats"
  shows "Region (stats ! i) \<le> Region (stats ! k)"
proof -
  have "k < length (map Region stats)" using assms(3) by simp
  with assms(1,2) have "map Region stats ! i \<le> map Region stats ! k"
    by (rule sorted_nth_mono)
  with assms show ?thesis by simp
qed

lemma highest_is_top:
  assumes s: "sorted (map Region stats)"
    and i: "idxmax (map Cancer_Rate stats) = Inr hi"
  shows "\<exists>v. Cancer_Rate (stats ! hi) = Some v
      \<and> hd (spec_rank_regions Descending (rate_entries stats)) = (Region (stats ! hi), v)"
proof -
  from idxmax_first [OF i] obtain m where
    hl: "hi < length stats" and hm: "Cancer_Rate (stats ! hi) = Some m"
    and mx: "\<forall>k<length stats. \<forall>v. Cancer_Rate (stats ! k) = Some v \<longrightarrow> v \<le> m \<and> (v = m \<longrightarrow> hi \<le> k)"
    by auto
  let ?key = "\<lambda>(l :: label, v :: real). (if Descending = Descending then - v else v, l)"
  have xin: "(Region (stats ! hi), m) \<in> set (rate_entries stats)"
    using hl hm by (auto simp: rate_entries_set)
  have least: "\<forall>y\<in>set (rate_entries stats). ?key (Region (stats ! hi), m) \<le> ?key y"
  proof
    fix y assume y: "y \<in> set (rate_entries stats)"
    obtain l v where lv: "y = (l, v)" by (cases y)
    with y obtain row where "row \<in> set stats" "Region row = l" "Cancer_Rate row = Some v"
      by (auto simp: rate_entries_set)
    then obtain k where k: "k < length stats" "Region (stats ! k) = l" "Cancer_Rate (stats ! k) = Some v"
      by (auto simp: in_set_conv_nth)
    with mx have vm: "v \<le> m" and tie: "v = m \<longrightarrow> hi \<le> k" by auto
    show "?key (Region (stats ! hi), m) \<le> ?key y"
    proof (cases "v = m")
      case True
      with tie have "hi \<le> k" by simp
      with s k have "Region (stats ! hi) \<le> l" using sorted_rows by blast
      with True lv show ?thesis by simp
    next
      case False
      with vm have "v < m" by simp
      with lv show ?thesis by simp
    qed
  qed
  have "hd (sort_key ?key (rate_entries stats)) = (Region (stats ! hi), m)"
    using xin least rank_key_inj by (rule hd_sort_key_least)
  then show ?thesis using hm by (simp add: spec_rank_regions_def)
qed

lemma lowest_is_top:
  assumes s: "sorted (map Region stats)"
    and i: "idxmin (map Cancer_Rate stats) = Inr lo"
  shows "\<exists>v. Cancer_Rate (stats ! lo) = Some v
      \<and> hd (spec_rank_regions Ascending (rate_entries stats)) = (Region (stats ! lo), v)"
proof -
  from idxmin_first [OF i] obtain m where
    hl: "lo < length stats" and hm: "Cancer_Rate (stats ! lo) = Some m"
    and mx: "\<forall>k<length stats. \<forall>v. Cancer_Rate (stats ! k) = Some v \<longrightarrow> m \<le> v \<and> (v = m \<longrightarrow> lo \<le> k)"
    by auto
  let ?key = "\<lambda>(l :: label, v :: real). (if Ascending = Descending then - v else v, l)"
  have xin: "(Region (stats ! lo), m) \<in> set (rate_entries stats)"
    using hl hm by (auto simp: rate_entries_set)
  have least: "\<forall>y\<in>set (rate_entries stats). ?key (Region (stats ! lo), m) \<le> ?key y"
  proof
    fix y assume y: "y \<in> set (rate_entries stats)"
    obtain l v where lv: "y = (l, v)" by (cases y)
    with y obtain row where "row \<in> set stats" "Region row = l" "Cancer_Rate row = Some v"
      by (auto simp: rate_entries_set)
    then obtain k where k: "k < length stats" "Region (stats ! k) = l" "Cancer_Rate (stats ! k) = Some v"
      by (auto simp: in_set_conv_nth)
    with mx have vm: "m \<le> v" and tie: "v = m \<longrightarrow> lo \<le> k" by auto
    show "?key (Region (stats ! lo), m) \<le> ?key y"
    proof (cases "v = m")
      case True
      with tie have "lo \<le> k" by simp
      with s k have "Region (stats ! lo) \<le> l" using sorted_rows by blast
      with True lv show ?thesis by simp
    next
      case False
      with vm have "m < v" by simp
      with lv show ?thesis by simp
    qed
  qed
  have "hd (sort_key ?key (rate_entries stats)) = (Region (stats ! lo), m)"
    using xin least rank_key_inj by (rule hd_sort_key_least)
  then show ?thesis using hm by (simp add: spec_rank_regions_def)
qed

lemma highest_tie:
  assumes s: "sorted (map Region stats)"
    and i: "idxmax (map Cancer_Rate stats) = Inr hi"
  shows "list_all (\<lambda>row. Cancer_Rate row = Cancer_Rate (stats ! hi)
            \<longrightarrow> Region (stats ! hi) \<le> Region row) stats"
proof -
  from idxmax_first [OF i] obtain m where
    hl: "hi < length stats" and hm: "Cancer_Rate (stats ! hi) = Some m"
    and mx: "\<forall>k<length stats. \<forall>v. Cancer_Rate (stats ! k) = Some v \<longrightarrow> v \<le> m \<and> (v = m \<longrightarrow> hi \<le> k)"
    by auto
  show ?thesis
    unfolding list_all_iff
  proof (intro ballI impI)
    fix row assume "row \<in> set stats" and c: "Cancer_Rate row = Cancer_Rate (stats ! hi)"
    then obtain k where k: "k < length stats" "stats ! k = row" by (auto simp: in_set_conv_nth)
    with c hm mx have "hi \<le> k" by auto
    with s k show "Region (stats ! hi) \<le> Region row" using sorted_rows by blast
  qed
qed

lemma lowest_tie:
  assumes s: "sorted (map Region stats)"
    and i: "idxmin (map Cancer_Rate stats) = Inr lo"
  shows "list_all (\<lambda>row. Cancer_Rate row = Cancer_Rate (stats ! lo)
            \<longrightarrow> Region (stats ! lo) \<le> Region row) stats"
proof -
  from idxmin_first [OF i] obtain m where
    hl: "lo < length stats" and hm: "Cancer_Rate (stats ! lo) = Some m"
    and mx: "\<forall>k<length stats. \<forall>v. Cancer_Rate (stats ! k) = Some v \<longrightarrow> m \<le> v \<and> (v = m \<longrightarrow> lo \<le> k)"
    by auto
  show ?thesis
    unfolding list_all_iff
  proof (intro ballI impI)
    fix row assume "row \<in> set stats" and c: "Cancer_Rate row = Cancer_Rate (stats ! lo)"
    then obtain k where k: "k < length stats" "stats ! k = row" by (auto simp: in_set_conv_nth)
    with c hm mx have "lo \<le> k" by auto
    with s k show "Region (stats ! lo) \<le> Region row" using sorted_rows by blast
  qed
qed

lemma highest_max:
  assumes i: "idxmax (map Cancer_Rate stats) = Inr hi"
  shows "stats ! hi \<in> set stats
     \<and> (\<exists>v. Cancer_Rate (stats ! hi) = Some v
          \<and> list_all (\<lambda>row. case Cancer_Rate row of None \<Rightarrow> True | Some w \<Rightarrow> w \<le> v) stats)"
proof -
  from idxmax_first [OF i] obtain m where
    hl: "hi < length stats" and hm: "Cancer_Rate (stats ! hi) = Some m"
    and mx: "\<forall>k<length stats. \<forall>v. Cancer_Rate (stats ! k) = Some v \<longrightarrow> v \<le> m \<and> (v = m \<longrightarrow> hi \<le> k)"
    by auto
  have "list_all (\<lambda>row. case Cancer_Rate row of None \<Rightarrow> True | Some w \<Rightarrow> w \<le> m) stats"
    unfolding list_all_iff
  proof
    fix row assume "row \<in> set stats"
    then obtain k where "k < length stats" "stats ! k = row" by (auto simp: in_set_conv_nth)
    with mx show "case Cancer_Rate row of None \<Rightarrow> True | Some w \<Rightarrow> w \<le> m"
      by (auto split: option.splits)
  qed
  with hl hm show ?thesis by simp
qed

lemma lowest_min:
  assumes i: "idxmin (map Cancer_Rate stats) = Inr lo"
  shows "stats ! lo \<in> set stats
     \<and> (\<exists>v. Cancer_Rate (stats ! lo) = Some v
          \<and> list_all (\<lambda>row. case Cancer_Rate row of None \<Rightarrow> True | Some w \<Rightarrow> v \<le> w) stats)"
proof -
  from idxmin_first [OF i] obtain m where
    hl: "lo < length stats" and hm: "Cancer_Rate (stats ! lo) = Some m"
    and mx: "\<forall>k<length stats. \<forall>v. Cancer_Rate (stats ! k) = Some v \<longrightarrow> m \<le> v \<and> (v = m \<longrightarrow> lo \<le> k)"
    by auto
  have "list_all (\<lambda>row. case Cancer_Rate row of None \<Rightarrow> True | Some w \<Rightarrow> m \<le> w) stats"
    unfolding list_all_iff
  proof
    fix row assume "row \<in> set stats"
    then obtain k where "k < length stats" "stats ! k = row" by (auto simp: in_set_conv_nth)
    with mx show "case Cancer_Rate row of None \<Rightarrow> True | Some w \<Rightarrow> m \<le> w"
      by (auto split: option.splits)
  qed
  with hl hm show ?thesis by simp
qed

section \<open>Theorems\<close>

text \<open>
  C3. For a real coefficient \<open>r\<close> the message is "strong" exactly when \<open>|r| > 0.7\<close>,
  "moderate" exactly when \<open>0.4 < |r| \<le> 0.7\<close> and "weak" exactly when \<open>|r| \<le> 0.4\<close>;
  the boundary values 0.7 and 0.4 fall in the lower category.
\<close>

theorem correlation_strength_thresholds:
  "(correlation_strength (Some r) = Strong) = (\<bar>r\<bar> > 0.7)
   \<and> (correlation_strength (Some r) = Moderate) = (0.4 < \<bar>r\<bar> \<and> \<bar>r\<bar> \<le> 0.7)
   \<and> (correlation_strength (Some r) = Weak) = (\<bar>r\<bar> \<le> 0.4)
   \<and> correlation_strength (Some 0.7) = Moderate
   \<and> correlation_strength (Some 0.4) = Weak
   \<and> correlation_strength (Some 0.75) = Strong
   \<and> correlation_strength (Some 0.39) = Weak"
  by (auto simp: correlation_strength_def)

text \<open>
  C1. The correlation computation is symmetric: entry \<open>(i, j)\<close> of the matrix equals
  entry \<open>(j, i)\<close>, and the pairwise coefficient of two columns does not depend on their
  order. The diagonal entry of a numeric column whose present values have nonzero
  variance (a nonzero sum of squared deviations) is 1.
\<close>

theorem corr_symmetric_unit_diagonal:
  assumes "i < length numeric_df" and "j < length numeric_df"
    and "to_float (snd (numeric_df ! i)) = Inr xs"
  shows "corr numeric_df ! i ! j = corr numeric_df ! j ! i
    \<and> series_corr (snd (numeric_df ! i)) (snd (numeric_df ! j))
        = series_corr (snd (numeric_df ! j)) (snd (numeric_df ! i))
    \<and> (ssqd (dropna xs) \<noteq> 0 \<longrightarrow> corr numeric_df ! i ! i = Some 1)"
proof -
  have sym: "corr numeric_df ! i ! j = corr numeric_df ! j ! i"
    using assms(1,2) by (rule corr_nth_commute)
  have diag: "ssqd (dropna xs) \<noteq> 0 \<longrightarrow> corr numeric_df ! i ! i = Some 1"
    using assms(1,3) by (simp add: corr_nth nancorr_self)
  show ?thesis using sym diag series_corr_commute by simp
qed

theorem corr_symmetric_unit_diagonal_witness:
  "corr (select_dtypes
      [(''Region'', Object [Some ''North'', Some ''South'', Some ''North'']),
       (''Income'', Float64 [Some 1, None, Some 3]),
       (''Rate'', Int64 [2, 5, 4])]) ! 0 ! 1
   = corr (select_dtypes
      [(''Region'', Object [Some ''North'', Some ''South'', Some ''North'']),
       (''Income'', Float64 [Some 1, None, Some 3]),
       (''Rate'', Int64 [2, 5, 4])]) ! 1 ! 0
   \<and> ssqd (dropna [Some 1, None, Some 3]) = 2
   \<and> corr (select_dtypes
      [(''Region'', Object [Some ''North'', Some ''South'', Some ''North'']),
       (''Income'', Float64 [Some 1, None, Some 3]),
       (''Rate'', Int64 [2, 5, 4])]) ! 0 ! 0 = Some 1"
proof -
  let ?ndf = "select_dtypes
      [(''Region'', Object [Some ''North'', Some ''South'', Some ''North'']),
       (''Income'', Float64 [Some 1, None, Some 3]),
       (''Rate'', Int64 [2, 5, 4])]"
  have ndf: "?ndf = [(''Income'', Float64 [Some 1, None, Some 3]), (''Rate'', Int64 [2, 5, 4])]"
    by (simp add: select_dtypes_def is_numeric_def)
  have v: "ssqd (dropna [Some 1, None, Some 3]) = 2"
    by (simp add: ssqd_def mean_def)
  have "0 < length ?ndf" and "1 < length ?ndf"
    and "to_float (snd (?ndf ! 0)) = Inr [Some 1, None, Some 3]"
    unfolding ndf by (simp_all add: to_float_def)
  from corr_symmetric_unit_diagonal [OF this] v show ?thesis by simp
qed

text \<open>
  C5. Every defined entry of the correlation matrix lies in \<open>[-1, 1]\<close>, and an entry
  that involves a constant column (in its row or in its column) is undefined (NaN), not
  a number.
\<close>

theorem corr_entries_bounded_or_undefined:
  assumes "i < length numeric_df" and "j < length numeric_df"
    and "to_float (snd (numeric_df ! i)) = Inr xs"
  shows "(\<forall>r. corr numeric_df ! i ! j = Some r \<longrightarrow> - 1 \<le> r \<and> r \<le> 1)
    \<and> (is_constant (dropna xs) \<longrightarrow>
         corr numeric_df ! i ! j = None \<and> corr numeric_df ! j ! i = None)"
proof -
  have rng: "\<forall>r. corr numeric_df ! i ! j = Some r \<longrightarrow> - 1 \<le> r \<and> r \<le> 1"
    using assms(1,2) by (auto simp: corr_nth split: sum.splits dest: nancorr_range)
  have "is_constant (dropna xs) \<longrightarrow> corr numeric_df ! i ! j = None"
    using assms by (simp add: corr_nth nancorr_constant split: sum.splits)
  then have "is_constant (dropna xs) \<longrightarrow>
      corr numeric_df ! i ! j = None \<and> corr numeric_df ! j ! i = None"
    using corr_nth_commute [OF assms(1,2)] by simp
  with rng show ?thesis by simp
qed

theorem corr_entries_bounded_or_undefined_witness:
  "is_constant (dropna [Some 5, Some 5, None])
   \<and> corr [(''Flat'', Float64 [Some 5, Some 5, None]),
            (''Income'', Float64 [Some 1, Some 2, Some 3]),
            (''Rate'', Int64 [1, 3, 2])] ! 0 ! 1 = None
   \<and> corr [(''Flat'', Float64 [Some 5, Some 5, None]),
            (''Income'', Float64 [Some 1, Some 2, Some 3]),
            (''Rate'', Int64 [1, 3, 2])] ! 1 ! 0 = None
   \<and> corr [(''Flat'', Float64 [Some 5, Some 5, None]),
            (''Income'', Float64 [Some 1, Some 2, Some 3]),
            (''Rate'', Int64 [1, 3, 2])] ! 1 ! 2 = Some (1 / 2)
   \<and> - 1 \<le> (1 / 2 :: real) \<and> (1 / 2 :: real) \<le> 1"
proof -
  let ?ndf = "[(''Flat'', Float64 [Some 5, Some 5, None]),
            (''Income'', Float64 [Some 1, Some 2, Some 3]),
            (''Rate'', Int64 [1, 3, 2])]"
  have c: "is_constant (dropna [Some 5, Some 5, None])"
    by (simp add: is_constant_def)
  have e: "corr ?ndf ! 1 ! 2 = Some (1 / 2)"
    by (simp add: corr_def to_float_def nancorr_def Let_def ssqd_def covxy_def mean_def)
  have a: "(\<forall>r. corr ?ndf ! 0 ! 1 = Some r \<longrightarrow> - 1 \<le> r \<and> r \<le> 1)
    \<and> (is_constant (dropna [Some 5, Some 5, None]) \<longrightarrow>
         corr ?ndf ! 0 ! 1 = None \<and> corr ?ndf ! 1 ! 0 = None)"
    by (rule corr_entries_bounded_or_undefined) (simp_all add: to_float_def)
  have b: "(\<forall>r. corr ?ndf ! 1 ! 2 = Some r \<longrightarrow> - 1 \<le> r \<and> r \<le> 1)
    \<and> (is_constant (dropna [Some 1, Some 2, Some 3]) \<longrightarrow>
         corr ?ndf ! 1 ! 2 = None \<and> corr ?ndf ! 2 ! 1 = None)"
    by (rule corr_entries_bounded_or_undefined) (simp_all add: to_float_def)
  from a c have "corr ?ndf ! 0 ! 1 = None \<and> corr ?ndf ! 1 ! 0 = None" by blast
  moreover from b e have "- 1 \<le> (1 / 2 :: real) \<and> (1 / 2 :: real) \<le> 1" by blast
  ultimately show ?thesis using c e by blast
qed

text \<open>
  C2. The demo data generator is deterministic: whatever the state of the global
  generator before the call, \<open>load_demo_data\<close> seeds it with 42 and returns the same
  frame (and leaves the same generator state). The frame has the eight named columns in
  this order, each of 100 rows.
\<close>

theorem load_demo_data_deterministic:
  "load_demo_data np g = load_demo_data np g'
   \<and> columns (fst (load_demo_data np g)) =
       [''County'', ''Region'', ''Median_Income'', ''Poverty_Rate'', ''Education_Level'',
        ''Cancer_Rate'', ''Lung_Cancer_Rate'', ''Breast_Cancer_Rate'']
   \<and> list_all (\<lambda>(c, col). column_length col = 100) (fst (load_demo_data np g))"
proof -
  have a: "load_demo_data np g = load_demo_data np g'"
    by (simp add: load_demo_data_def)
  have b: "columns (fst (load_demo_data np g)) =
       [''County'', ''Region'', ''Median_Income'', ''Poverty_Rate'', ''Education_Level'',
        ''Cancer_Rate'', ''Lung_Cancer_Rate'', ''Breast_Cancer_Rate'']"
    by (simp add: load_demo_data_def Let_def columns_def split: prod.splits)
  have c: "list_all (\<lambda>(c, col). column_length col = 100) (fst (load_demo_data np g))"
    by (auto simp: load_demo_data_def Let_def column_length_def split: prod.splits
          dest!: length_normal length_choice)
  from a b c show ?thesis by simp
qed

text \<open>
  C6. In \<open>streamlit_cancer_app.py\<close>, an upload whose parsing fails is answered with the
  error notice and the demo frame, and no exception leaves the branch. In
  \<open>streamlit_app.py\<close> the failure of \<open>read_excel\<close> is not caught: it leaves the
  script as an exception.
\<close>

theorem upload_parse_failure:
  "((if endswith (name f) ''.csv'' then read_csv rd (bytes f) else read_excel rd (bytes f)) = Inl e
      \<longrightarrow> load_data np rd (Some f) use_demo g
            = Inr (StError e, Some (fst (load_demo_data np g))))
   \<and> (read_excel rd (bytes f) = Inl e \<longrightarrow> load_data_simple rd (Some f) = Inl e)"
  by (simp add: load_data_def load_data_simple_def)

theorem upload_parse_failure_witness:
  "read_csv \<lparr>read_csv = (\<lambda>b. if b = [] then Inl ParseError else Inr []),
             read_excel = (\<lambda>b. if b = [] then Inl ParseError else Inr [])\<rparr> '''' = Inl ParseError
   \<and> load_data
        \<lparr>rs_seed = (\<lambda>s. s), rs_normal = (\<lambda>loc scale g. (loc, Suc g)),
          rs_randint = (\<lambda>n g. (0, Suc g))\<rparr>
        \<lparr>read_csv = (\<lambda>b. if b = [] then Inl ParseError else Inr []),
         read_excel = (\<lambda>b. if b = [] then Inl ParseError else Inr [])\<rparr>
        (Some \<lparr>name = ''counties.csv'', bytes = ''''\<rparr>) False 7
      = Inr (StError ParseError, Some (fst (load_demo_data
          \<lparr>rs_seed = (\<lambda>s. s), rs_normal = (\<lambda>loc scale g. (loc, Suc g)),
          rs_randint = (\<lambda>n g. (0, Suc g))\<rparr> 7)))
   \<and> load_data_simple
        \<lparr>read_csv = (\<lambda>b. if b = [] then Inl ParseError else Inr []),
         read_excel = (\<lambda>b. if b = [] then Inl ParseError else Inr [])\<rparr>
        (Some \<lparr>name = ''counties.csv'', bytes = ''''\<rparr>) = Inl ParseError"
  using upload_parse_failure [of "\<lparr>name = ''counties.csv'', bytes = ''''\<rparr>"
      "\<lparr>read_csv = (\<lambda>b. if b = [] then Inl ParseError else Inr []),
        read_excel = (\<lambda>b. if b = [] then Inl ParseError else Inr [])\<rparr>"
      ParseError
      "\<lparr>rs_seed = (\<lambda>s. s), rs_normal = (\<lambda>loc scale g. (loc, Suc g)),
          rs_randint = (\<lambda>n g. (0, Suc g))\<rparr>" False 7]
  by (simp add: endswith_def)

text \<open>
  The upload branch of \<open>streamlit_app.py\<close> on a file that does not parse: the
  exception propagates, and no demo frame is substituted.
\<close>

theorem simple_app_upload_raises:
  "load_data_simple
     \<lparr>read_csv = (\<lambda>b. if b = [] then Inl ParseError else Inr []),
      read_excel = (\<lambda>b. if b = [] then Inl ParseError else Inr [])\<rparr>
     (Some \<lparr>name = ''counties.xlsx'', bytes = ''''\<rparr>) = Inl ParseError"
  by (simp add: load_data_simple_def)

text \<open>
  C9. A frame with a \<open>Region\<close> column and without the three aggregated columns: the
  regional tab raises \<open>KeyError\<close> instead of producing the regional means.
\<close>

theorem regional_insights_missing_metric:
  "regional_insights
     [(''Region'', Object [Some ''North'', Some ''South'']),
      (''Income'', Float64 [Some 1, Some 2])]
   = Inl (KeyError [''Cancer_Rate'', ''Median_Income'', ''Poverty_Rate''])"
  by (simp add: regional_insights_def regional_stats_def columns_def getitem_def)

text \<open>
  C10. The relationship explorer returns a result only for frames with at least 6
  numeric columns: with fewer, the default selections (positions 2 and 5 of the numeric
  columns) make it fail; with 6 or more (and distinct column names) it returns the
  coefficient of the 3rd and the 6th numeric column.
\<close>

theorem relationship_explorer_needs_six_numeric_columns:
  "(length (select_dtypes df) < 6 \<longrightarrow> (\<exists>e. relationship_explorer df = Inl e))
   \<and> (distinct (columns df) \<and> 6 \<le> length (select_dtypes df) \<longrightarrow>
        (\<exists>r. relationship_explorer df = Inr r
           \<and> x_col r = fst (select_dtypes df ! 2) \<and> y_col r = fst (select_dtypes df ! 5)))"
  using explorer_fails explorer_succeeds by blast

theorem relationship_explorer_needs_six_numeric_columns_witness:
  "''Region'' \<in> set (columns
      [(''Region'', Object [Some ''North'', Some ''South'']),
       (''Income'', Float64 [Some 1, Some 2]),
       (''Rate'', Int64 [3, 4])])
   \<and> length (select_dtypes
      [(''Region'', Object [Some ''North'', Some ''South'']),
       (''Income'', Float64 [Some 1, Some 2]),
       (''Rate'', Int64 [3, 4])]) = 2
   \<and> relationship_explorer
      [(''Region'', Object [Some ''North'', Some ''South'']),
       (''Income'', Float64 [Some 1, Some 2]),
       (''Rate'', Int64 [3, 4])] = Inl StreamlitAPIException
   \<and> (\<exists>r. relationship_explorer
      [(''Region'', Object [Some ''North'', Some ''South'']),
       (''Median_Income'', Float64 [Some 1, Some 2]),
       (''Poverty_Rate'', Float64 [Some 1, Some 2]),
       (''Education_Level'', Float64 [Some 1, Some 2]),
       (''Cancer_Rate'', Float64 [Some 1, Some 2]),
       (''Lung_Cancer_Rate'', Float64 [Some 1, Some 2]),
       (''Breast_Cancer_Rate'', Float64 [Some 1, Some 3])] = Inr r
      \<and> x_col r = ''Education_Level'' \<and> y_col r = ''Breast_Cancer_Rate'')"
proof -
  let ?small = "[(''Region'', Object [Some ''North'', Some ''South'']),
       (''Income'', Float64 [Some 1, Some 2]),
       (''Rate'', Int64 [3, 4])]"
  let ?big = "[(''Region'', Object [Some ''North'', Some ''South'']),
       (''Median_Income'', Float64 [Some 1, Some 2]),
       (''Poverty_Rate'', Float64 [Some 1, Some 2]),
       (''Education_Level'', Float64 [Some 1, Some 2]),
       (''Cancer_Rate'', Float64 [Some 1, Some 2]),
       (''Lung_Cancer_Rate'', Float64 [Some 1, Some 2]),
       (''Breast_Cancer_Rate'', Float64 [Some 1, Some 3])]"
  have s: "select_dtypes ?small = [(''Income'', Float64 [Some 1, Some 2]), (''Rate'', Int64 [3, 4])]"
    by (simp add: select_dtypes_def is_numeric_def)
  have b: "select_dtypes ?big = tl ?big"
    by (simp add: select_dtypes_def is_numeric_def)
  have small: "relationship_explorer ?small = Inl StreamlitAPIException"
    by (simp add: relationship_explorer_def s selectbox_def columns_def)
  have "distinct (columns ?big) \<and> 6 \<le> length (select_dtypes ?big)"
    unfolding b by (simp add: columns_def)
  with relationship_explorer_needs_six_numeric_columns [of ?big]
  have "\<exists>r. relationship_explorer ?big = Inr r
           \<and> x_col r = fst (select_dtypes ?big ! 2) \<and> y_col r = fst (select_dtypes ?big ! 5)"
    by blast
  then have big: "\<exists>r. relationship_explorer ?big = Inr r
      \<and> x_col r = ''Education_Level'' \<and> y_col r = ''Breast_Cancer_Rate''"
    unfolding b by simp
  show ?thesis using small big by (simp add: s columns_def)
qed

text \<open>
  C7. For a frame with a \<open>Region\<close> column in which \<open>Median_Income\<close>,
  \<open>Poverty_Rate\<close> and \<open>Cancer_Rate\<close> are numeric columns, the regional table has
  one row for each distinct region label present, in ascending order of the label, and
  no other row; each mean of a row is the arithmetic mean of the present values of the
  metric over the rows of that region (the sum of the present values over their number),
  and undefined when the region has no present value.
\<close>

theorem regional_stats_group_means:
  assumes "getitem df ''Region'' = Inr region"
    and "numeric_column df ''Median_Income'' = Inr mi"
    and "numeric_column df ''Poverty_Rate'' = Inr pr"
    and "numeric_column df ''Cancer_Rate'' = Inr cr"
  shows "\<exists>stats. regional_stats df = Inr stats
     \<and> sorted (map Region stats) \<and> distinct (map Region stats)
     \<and> set (map Region stats) = {k. Some k \<in> set (labels region)}
     \<and> list_all (\<lambda>row.
           Median_Income row = spec_mean (group_values (labels region) mi (Region row))
         \<and> Poverty_Rate row = spec_mean (group_values (labels region) pr (Region row))
         \<and> Cancer_Rate row = spec_mean (group_values (labels region) cr (Region row))) stats"
proof -
  define stats where "stats = map (\<lambda>k. \<lparr>Region = k,
                     Median_Income = group_mean (labels region) mi k,
                     Poverty_Rate = group_mean (labels region) pr k,
                     Cancer_Rate = group_mean (labels region) cr k\<rparr>)
            (group_keys (labels region))"
  have r: "regional_stats df = Inr stats"
    unfolding stats_def using assms by (rule regional_stats_value)
  have k: "map Region stats = group_keys (labels region)"
    by (simp add: stats_def comp_def)
  have m: "list_all (\<lambda>row.
           Median_Income row = spec_mean (group_values (labels region) mi (Region row))
         \<and> Poverty_Rate row = spec_mean (group_values (labels region) pr (Region row))
         \<and> Cancer_Rate row = spec_mean (group_values (labels region) cr (Region row))) stats"
    by (simp add: stats_def list_all_iff group_mean_spec)
  show ?thesis
    using r m group_keys_sorted [of "labels region"] group_keys_distinct [of "labels region"]
      group_keys_set [of "labels region"]
    unfolding k [symmetric] by blast
qed

text \<open>
  A frame that reaches the regional tab (the relationship explorer returns on it) and
  has the three metric columns: a region with cancer rates 5, missing and 7 has the mean
  6, and a region with no present rate keeps its row with an undefined mean.
\<close>

theorem regional_stats_group_means_witness:
  "(\<exists>r. relationship_explorer
     [(''Region'', Object [Some ''North'', Some ''South'', Some ''North'', None, Some ''North'']),
      (''Median_Income'', Int64 [10, 40, 20, 70, 30]),
      (''Poverty_Rate'', Float64 [Some 1, None, Some 2, Some 9, Some 6]),
      (''Education_Level'', Float64 [Some 20, Some 25, Some 30, Some 35, Some 40]),
      (''Cancer_Rate'', Float64 [Some 5, None, None, Some 9, Some 7]),
      (''Lung_Cancer_Rate'', Float64 [Some 3, Some 4, Some 5, Some 6, Some 7]),
      (''Breast_Cancer_Rate'', Float64 [Some 2, Some 3, Some 2, Some 3, Some 2])] = Inr r)
   \<and> regional_stats
     [(''Region'', Object [Some ''North'', Some ''South'', Some ''North'', None, Some ''North'']),
      (''Median_Income'', Int64 [10, 40, 20, 70, 30]),
      (''Poverty_Rate'', Float64 [Some 1, None, Some 2, Some 9, Some 6]),
      (''Education_Level'', Float64 [Some 20, Some 25, Some 30, Some 35, Some 40]),
      (''Cancer_Rate'', Float64 [Some 5, None, None, Some 9, Some 7]),
      (''Lung_Cancer_Rate'', Float64 [Some 3, Some 4, Some 5, Some 6, Some 7]),
      (''Breast_Cancer_Rate'', Float64 [Some 2, Some 3, Some 2, Some 3, Some 2])]
   = Inr [\<lparr>Region = LStr ''North'', Median_Income = Some 20, Poverty_Rate = Some 3,
            Cancer_Rate = Some 6\<rparr>,
          \<lparr>Region = LStr ''South'', Median_Income = Some 40, Poverty_Rate = None,
            Cancer_Rate = None\<rparr>]
   \<and> spec_mean (group_values
        (labels (Object [Some ''North'', Some ''South'', Some ''North'', None, Some ''North'']))
        [Some 5, None, None, Some 9, Some 7] (LStr ''North'')) = Some 6
   \<and> spec_mean (group_values [Some (LStr ''North''), Some (LStr ''North''), Some (LStr ''North'')]
        [Some 5, None, Some 7] (LStr ''North'')) = Some 6"
proof -
  let ?df = "[(''Region'', Object [Some ''North'', Some ''South'', Some ''North'', None, Some ''North'']),
      (''Median_Income'', Int64 [10, 40, 20, 70, 30]),
      (''Poverty_Rate'', Float64 [Some 1, None, Some 2, Some 9, Some 6]),
      (''Education_Level'', Float64 [Some 20, Some 25, Some 30, Some 35, Some 40]),
      (''Cancer_Rate'', Float64 [Some 5, None, None, Some 9, Some 7]),
      (''Lung_Cancer_Rate'', Float64 [Some 3, Some 4, Some 5, Some 6, Some 7]),
      (''Breast_Cancer_Rate'', Float64 [Some 2, Some 3, Some 2, Some 3, Some 2])]"
  let ?region = "Object [Some ''North'', Some ''South'', Some ''North'', None, Some ''North'']"
  have "distinct (columns ?df)" and "6 \<le> length (select_dtypes ?df)"
    by (simp_all add: columns_def select_dtypes_def is_numeric_def)
  then have reach: "\<exists>r. relationship_explorer ?df = Inr r"
    using explorer_succeeds by blast
  have "getitem ?df ''Region'' = Inr ?region"
    and "numeric_column ?df ''Median_Income'' = Inr [Some 10, Some 40, Some 20, Some 70, Some 30]"
    and "numeric_column ?df ''Poverty_Rate'' = Inr [Some 1, None, Some 2, Some 9, Some 6]"
    and "numeric_column ?df ''Cancer_Rate'' = Inr [Some 5, None, None, Some 9, Some 7]"
    by (simp_all add: getitem_def numeric_column_def to_float_def)
  from regional_stats_group_means [OF this]
  obtain stats where s: "regional_stats ?df = Inr stats"
    and m: "list_all (\<lambda>row.
           Median_Income row = spec_mean (group_values (labels ?region)
              [Some 10, Some 40, Some 20, Some 70, Some 30] (Region row))
         \<and> Poverty_Rate row = spec_mean (group_values (labels ?region)
              [Some 1, None, Some 2, Some 9, Some 6] (Region row))
         \<and> Cancer_Rate row = spec_mean (group_values (labels ?region)
              [Some 5, None, None, Some 9, Some 7] (Region row))) stats"
    by blast
  have e: "regional_stats ?df
   = Inr [\<lparr>Region = LStr ''North'', Median_Income = Some 20, Poverty_Rate = Some 3,
            Cancer_Rate = Some 6\<rparr>,
          \<lparr>Region = LStr ''South'', Median_Income = Some 40, Poverty_Rate = None,
            Cancer_Rate = None\<rparr>]"
    by (simp add: regional_stats_def getitem_def numeric_column_def to_float_def columns_def
        labels_def group_keys_def group_mean_def)
  have x: "spec_mean (group_values [Some (LStr ''North''), Some (LStr ''North''), Some (LStr ''North'')]
        [Some 5, None, Some 7] (LStr ''North'')) = Some 6"
    by (simp add: spec_mean_def)
  from s e have st: "stats =
     [\<lparr>Region = LStr ''North'', Median_Income = Some 20, Poverty_Rate = Some 3,
        Cancer_Rate = Some 6\<rparr>,
      \<lparr>Region = LStr ''South'', Median_Income = Some 40, Poverty_Rate = None,
        Cancer_Rate = None\<rparr>]"
    by simp
  from m have y: "spec_mean (group_values (labels ?region)
      [Some 5, None, None, Some 9, Some 7] (LStr ''North'')) = Some 6"
    unfolding st by simp
  from reach e x y show ?thesis by blast
qed

text \<open>
  The aggregation is over the three fixed columns, not over every table with a
  \<open>Region\<close> column: on a frame that reaches the regional tab and has a \<open>Region\<close>
  column and six numeric columns of other names, no regional mean is produced.
\<close>

theorem regional_stats_needs_metric_columns:
  "''Region'' \<in> set (columns
     [(''Region'', Object [Some ''North'', Some ''South'']),
      (''Income'', Float64 [Some 1, Some 2]),
      (''Poverty'', Float64 [Some 3, Some 4]),
      (''Education'', Float64 [Some 5, Some 6]),
      (''Rate'', Float64 [Some 7, Some 8]),
      (''Lung'', Float64 [Some 9, Some 10]),
      (''Breast'', Float64 [Some 11, Some 12])])
   \<and> (\<exists>r. relationship_explorer
     [(''Region'', Object [Some ''North'', Some ''South'']),
      (''Income'', Float64 [Some 1, Some 2]),
      (''Poverty'', Float64 [Some 3, Some 4]),
      (''Education'', Float64 [Some 5, Some 6]),
      (''Rate'', Float64 [Some 7, Some 8]),
      (''Lung'', Float64 [Some 9, Some 10]),
      (''Breast'', Float64 [Some 11, Some 12])] = Inr r)
   \<and> regional_stats
     [(''Region'', Object [Some ''North'', Some ''South'']),
      (''Income'', Float64 [Some 1, Some 2]),
      (''Poverty'', Float64 [Some 3, Some 4]),
      (''Education'', Float64 [Some 5, Some 6]),
      (''Rate'', Float64 [Some 7, Some 8]),
      (''Lung'', Float64 [Some 9, Some 10]),
      (''Breast'', Float64 [Some 11, Some 12])]
     = Inl (KeyError [''Cancer_Rate'', ''Median_Income'', ''Poverty_Rate''])"
proof -
  let ?df = "[(''Region'', Object [Some ''North'', Some ''South'']),
      (''Income'', Float64 [Some 1, Some 2]),
      (''Poverty'', Float64 [Some 3, Some 4]),
      (''Education'', Float64 [Some 5, Some 6]),
      (''Rate'', Float64 [Some 7, Some 8]),
      (''Lung'', Float64 [Some 9, Some 10]),
      (''Breast'', Float64 [Some 11, Some 12])]"
  have a: "''Region'' \<in> set (columns ?df)" by (simp add: columns_def)
  have "distinct (columns ?df)" and "6 \<le> length (select_dtypes ?df)"
    by (simp_all add: columns_def select_dtypes_def is_numeric_def)
  then have b: "\<exists>r. relationship_explorer ?df = Inr r"
    using explorer_succeeds by blast
  have c: "regional_stats ?df = Inl (KeyError [''Cancer_Rate'', ''Median_Income'', ''Poverty_Rate''])"
    by (simp add: regional_stats_def columns_def getitem_def)
  from a b c show ?thesis by blast
qed

text \<open>
  C8. The code ranks nothing and has no direction: it reports the rows of highest and
  of lowest cancer rate of the regional table, which is ordered by region label. The
  row reported as highest (lowest) is a row of the table whose rate is the greatest
  (least) present rate; among the rows that share that rate it has the smallest label.
  It is therefore the first entry of the specification's descending (ascending)
  ranking with ties broken by region label ascending.
\<close>

theorem extremes_break_ties_by_label:
  assumes "regional_insights df = Inr (RegionalView stats highest_region lowest_region)"
  shows "sorted (map Region stats) \<and> distinct (map Region stats)
     \<and> highest_region \<in> set stats \<and> lowest_region \<in> set stats
     \<and> (\<exists>v. Cancer_Rate highest_region = Some v
            \<and> list_all (\<lambda>row. case Cancer_Rate row of None \<Rightarrow> True | Some w \<Rightarrow> w \<le> v) stats
            \<and> hd (spec_rank_regions Descending (rate_entries stats)) = (Region highest_region, v))
     \<and> (\<exists>v. Cancer_Rate lowest_region = Some v
            \<and> list_all (\<lambda>row. case Cancer_Rate row of None \<Rightarrow> True | Some w \<Rightarrow> v \<le> w) stats
            \<and> hd (spec_rank_regions Ascending (rate_entries stats)) = (Region lowest_region, v))
     \<and> list_all (\<lambda>row. Cancer_Rate row = Cancer_Rate highest_region
            \<longrightarrow> Region highest_region \<le> Region row) stats
     \<and> list_all (\<lambda>row. Cancer_Rate row = Cancer_Rate lowest_region
            \<longrightarrow> Region lowest_region \<le> Region row) stats"
proof -
  from assms obtain hi lo where
    r: "regional_stats df = Inr stats"
    and hi: "idxmax (map Cancer_Rate stats) = Inr hi"
    and lo: "idxmin (map Cancer_Rate stats) = Inr lo"
    and h: "highest_region = stats ! hi" and l: "lowest_region = stats ! lo"
    by (auto simp: regional_insights_def split: if_splits sum.splits)
  from regional_stats_keys [OF r]
  have s: "sorted (map Region stats)" and d: "distinct (map Region stats)" by simp_all
  have 1: "\<exists>v. Cancer_Rate (stats ! hi) = Some v
            \<and> list_all (\<lambda>row. case Cancer_Rate row of None \<Rightarrow> True | Some w \<Rightarrow> w \<le> v) stats
            \<and> hd (spec_rank_regions Descending (rate_entries stats)) = (Region (stats ! hi), v)"
    using highest_max [OF hi] highest_is_top [OF s hi] by auto
  have 2: "\<exists>v. Cancer_Rate (stats ! lo) = Some v
            \<and> list_all (\<lambda>row. case Cancer_Rate row of None \<Rightarrow> True | Some w \<Rightarrow> v \<le> w) stats
            \<and> hd (spec_rank_regions Ascending (rate_entries stats)) = (Region (stats ! lo), v)"
    using lowest_min [OF lo] lowest_is_top [OF s lo] by auto
  show ?thesis
    unfolding h l
    using s d 1 2 highest_max [OF hi] lowest_min [OF lo] highest_tie [OF s hi] lowest_tie [OF s lo]
    by blast
qed

text \<open>
  Regional means A: 10, B: 10, C: 5, D: 5 on a frame that reaches the regional tab:
  the highest region is A and the lowest is C.
\<close>

theorem extremes_break_ties_by_label_witness:
  "(\<exists>r. relationship_explorer
     [(''Region'', Object [Some ''B'', Some ''A'', Some ''C'', Some ''D'', Some ''B'']),
      (''Median_Income'', Int64 [1, 2, 3, 4, 5]),
      (''Poverty_Rate'', Float64 [Some 1, Some 1, Some 1, Some 1, Some 1]),
      (''Education_Level'', Float64 [Some 20, Some 25, Some 30, Some 35, Some 40]),
      (''Cancer_Rate'', Float64 [Some 8, Some 10, Some 5, Some 5, Some 12]),
      (''Lung_Cancer_Rate'', Float64 [Some 3, Some 4, Some 5, Some 6, Some 7]),
      (''Breast_Cancer_Rate'', Float64 [Some 2, Some 3, Some 2, Some 3, Some 2])] = Inr r)
   \<and> regional_insights
     [(''Region'', Object [Some ''B'', Some ''A'', Some ''C'', Some ''D'', Some ''B'']),
      (''Median_Income'', Int64 [1, 2, 3, 4, 5]),
      (''Poverty_Rate'', Float64 [Some 1, Some 1, Some 1, Some 1, Some 1]),
      (''Education_Level'', Float64 [Some 20, Some 25, Some 30, Some 35, Some 40]),
      (''Cancer_Rate'', Float64 [Some 8, Some 10, Some 5, Some 5, Some 12]),
      (''Lung_Cancer_Rate'', Float64 [Some 3, Some 4, Some 5, Some 6, Some 7]),
      (''Breast_Cancer_Rate'', Float64 [Some 2, Some 3, Some 2, Some 3, Some 2])]
   = Inr (RegionalView
       [\<lparr>Region = LStr ''A'', Median_Income = Some 2, Poverty_Rate = Some 1, Cancer_Rate = Some 10\<rparr>,
        \<lparr>Region = LStr ''B'', Median_Income = Some 3, Poverty_Rate = Some 1, Cancer_Rate = Some 10\<rparr>,
        \<lparr>Region = LStr ''C'', Median_Income = Some 3, Poverty_Rate = Some 1, Cancer_Rate = Some 5\<rparr>,
        \<lparr>Region = LStr ''D'', Median_Income = Some 4, Poverty_Rate = Some 1, Cancer_Rate = Some 5\<rparr>]
       \<lparr>Region = LStr ''A'', Median_Income = Some 2, Poverty_Rate = Some 1, Cancer_Rate = Some 10\<rparr>
       \<lparr>Region = LStr ''C'', Median_Income = Some 3, Poverty_Rate = Some 1, Cancer_Rate = Some 5\<rparr>)
   \<and> hd (spec_rank_regions Descending
         [(LStr ''A'', 10), (LStr ''B'', 10), (LStr ''C'', 5), (LStr ''D'', 5)]) = (LStr ''A'', 10)
   \<and> hd (spec_rank_regions Ascending
         [(LStr ''A'', 10), (LStr ''B'', 10), (LStr ''C'', 5), (LStr ''D'', 5)]) = (LStr ''C'', 5)"
proof -
  let ?df = "[(''Region'', Object [Some ''B'', Some ''A'', Some ''C'', Some ''D'', Some ''B'']),
      (''Median_Income'', Int64 [1, 2, 3, 4, 5]),
      (''Poverty_Rate'', Float64 [Some 1, Some 1, Some 1, Some 1, Some 1]),
      (''Education_Level'', Float64 [Some 20, Some 25, Some 30, Some 35, Some 40]),
      (''Cancer_Rate'', Float64 [Some 8, Some 10, Some 5, Some 5, Some 12]),
      (''Lung_Cancer_Rate'', Float64 [Some 3, Some 4, Some 5, Some 6, Some 7]),
      (''Breast_Cancer_Rate'', Float64 [Some 2, Some 3, Some 2, Some 3, Some 2])]"
  let ?a = "\<lparr>Region = LStr ''A'', Median_Income = Some 2, Poverty_Rate = Some 1, Cancer_Rate = Some 10\<rparr>"
  let ?b = "\<lparr>Region = LStr ''B'', Median_Income = Some 3, Poverty_Rate = Some 1, Cancer_Rate = Some 10\<rparr>"
  let ?c = "\<lparr>Region = LStr ''C'', Median_Income = Some 3, Poverty_Rate = Some 1, Cancer_Rate = Some 5\<rparr>"
  let ?d = "\<lparr>Region = LStr ''D'', Median_Income = Some 4, Poverty_Rate = Some 1, Cancer_Rate = Some 5\<rparr>"
  have "distinct (columns ?df)" and "6 \<le> length (select_dtypes ?df)"
    by (simp_all add: columns_def select_dtypes_def is_numeric_def)
  then have reach: "\<exists>r. relationship_explorer ?df = Inr r"
    using explorer_succeeds by blast
  have s: "regional_stats ?df = Inr [?a, ?b, ?c, ?d]"
    by (simp add: regional_stats_def getitem_def numeric_column_def to_float_def columns_def
        labels_def group_keys_def group_mean_def)
  have e: "regional_insights ?df = Inr (RegionalView [?a, ?b, ?c, ?d] ?a ?c)"
    by (simp add: regional_insights_def s idxmax_def idxmin_def columns_def)
  have r: "rate_entries [?a, ?b, ?c, ?d]
      = [(LStr ''A'', 10), (LStr ''B'', 10), (LStr ''C'', 5), (LStr ''D'', 5)]"
    by simp
  from extremes_break_ties_by_label [OF e]
  have "hd (spec_rank_regions Descending (rate_entries [?a, ?b, ?c, ?d])) = (LStr ''A'', 10)"
    and "hd (spec_rank_regions Ascending (rate_entries [?a, ?b, ?c, ?d])) = (LStr ''C'', 5)"
    by simp_all
  then show ?thesis using reach e unfolding r by blast
qed

text \<open>
  Regional means A: 5, B: 10, C: 10, D: 5. The only ordered list of regions the code
  produces is the regional table, in label order A, B, C, D; it is neither the
  descending ranking B, C, A, D nor the ascending ranking A, D, B, C of the
  specification. The region reported as lowest is A, while the last entry of the
  descending ranking is D.
\<close>

theorem regional_table_is_not_a_ranking:
  "(\<exists>r. relationship_explorer
     [(''Region'', Object [Some ''A'', Some ''B'', Some ''C'', Some ''D'']),
      (''Median_Income'', Int64 [1, 2, 3, 4]),
      (''Poverty_Rate'', Float64 [Some 1, Some 1, Some 1, Some 1]),
      (''Education_Level'', Float64 [Some 20, Some 25, Some 30, Some 35]),
      (''Cancer_Rate'', Float64 [Some 5, Some 10, Some 10, Some 5]),
      (''Lung_Cancer_Rate'', Float64 [Some 3, Some 4, Some 5, Some 6]),
      (''Breast_Cancer_Rate'', Float64 [Some 2, Some 3, Some 2, Some 3])] = Inr r)
   \<and> regional_insights
     [(''Region'', Object [Some ''A'', Some ''B'', Some ''C'', Some ''D'']),
      (''Median_Income'', Int64 [1, 2, 3, 4]),
      (''Poverty_Rate'', Float64 [Some 1, Some 1, Some 1, Some 1]),
      (''Education_Level'', Float64 [Some 20, Some 25, Some 30, Some 35]),
      (''Cancer_Rate'', Float64 [Some 5, Some 10, Some 10, Some 5]),
      (''Lung_Cancer_Rate'', Float64 [Some 3, Some 4, Some 5, Some 6]),
      (''Breast_Cancer_Rate'', Float64 [Some 2, Some 3, Some 2, Some 3])]
   = Inr (RegionalView
       [\<lparr>Region = LStr ''A'', Median_Income = Some 1, Poverty_Rate = Some 1, Cancer_Rate = Some 5\<rparr>,
        \<lparr>Region = LStr ''B'', Median_Income = Some 2, Poverty_Rate = Some 1, Cancer_Rate = Some 10\<rparr>,
        \<lparr>Region = LStr ''C'', Median_Income = Some 3, Poverty_Rate = Some 1, Cancer_Rate = Some 10\<rparr>,
        \<lparr>Region = LStr ''D'', Median_Income = Some 4, Poverty_Rate = Some 1, Cancer_Rate = Some 5\<rparr>]
       \<lparr>Region = LStr ''B'', Median_Income = Some 2, Poverty_Rate = Some 1, Cancer_Rate = Some 10\<rparr>
       \<lparr>Region = LStr ''A'', Median_Income = Some 1, Poverty_Rate = Some 1, Cancer_Rate = Some 5\<rparr>)
   \<and> spec_rank_regions Descending
        [(LStr ''A'', 5), (LStr ''B'', 10), (LStr ''C'', 10), (LStr ''D'', 5)]
       = [(LStr ''B'', 10), (LStr ''C'', 10), (LStr ''A'', 5), (LStr ''D'', 5)]
   \<and> spec_rank_regions Ascending
        [(LStr ''A'', 5), (LStr ''B'', 10), (LStr ''C'', 10), (LStr ''D'', 5)]
       = [(LStr ''A'', 5), (LStr ''D'', 5), (LStr ''B'', 10), (LStr ''C'', 10)]
   \<and> last (spec_rank_regions Descending
        [(LStr ''A'', 5), (LStr ''B'', 10), (LStr ''C'', 10), (LStr ''D'', 5)]) = (LStr ''D'', 5)
   \<and> LStr ''A'' \<noteq> LStr ''D''"
proof -
  let ?df = "[(''Region'', Object [Some ''A'', Some ''B'', Some ''C'', Some ''D'']),
      (''Median_Income'', Int64 [1, 2, 3, 4]),
      (''Poverty_Rate'', Float64 [Some 1, Some 1, Some 1, Some 1]),
      (''Education_Level'', Float64 [Some 20, Some 25, Some 30, Some 35]),
      (''Cancer_Rate'', Float64 [Some 5, Some 10, Some 10, Some 5]),
      (''Lung_Cancer_Rate'', Float64 [Some 3, Some 4, Some 5, Some 6]),
      (''Breast_Cancer_Rate'', Float64 [Some 2, Some 3, Some 2, Some 3])]"
  let ?a = "\<lparr>Region = LStr ''A'', Median_Income = Some 1, Poverty_Rate = Some 1, Cancer_Rate = Some 5\<rparr>"
  let ?b = "\<lparr>Region = LStr ''B'', Median_Income = Some 2, Poverty_Rate = Some 1, Cancer_Rate = Some 10\<rparr>"
  let ?c = "\<lparr>Region = LStr ''C'', Median_Income = Some 3, Poverty_Rate = Some 1, Cancer_Rate = Some 10\<rparr>"
  let ?d = "\<lparr>Region = LStr ''D'', Median_Income = Some 4, Poverty_Rate = Some 1, Cancer_Rate = Some 5\<rparr>"
  have "distinct (columns ?df)" and "6 \<le> length (select_dtypes ?df)"
    by (simp_all add: columns_def select_dtypes_def is_numeric_def)
  then have reach: "\<exists>r. relationship_explorer ?df = Inr r"
    using explorer_succeeds by blast
  have s: "regional_stats ?df = Inr [?a, ?b, ?c, ?d]"
    by (simp add: regional_stats_def getitem_def numeric_column_def to_float_def columns_def
        labels_def group_keys_def group_mean_def)
  have e: "regional_insights ?df = Inr (RegionalView [?a, ?b, ?c, ?d] ?b ?a)"
    by (simp add: regional_insights_def s idxmax_def idxmin_def columns_def)
  have d: "spec_rank_regions Descending
        [(LStr ''A'', 5), (LStr ''B'', 10), (LStr ''C'', 10), (LStr ''D'', 5)]
       = [(LStr ''B'', 10), (LStr ''C'', 10), (LStr ''A'', 5), (LStr ''D'', 5)]"
    by (simp add: spec_rank_regions_def)
  have a: "spec_rank_regions Ascending
        [(LStr ''A'', 5), (LStr ''B'', 10), (LStr ''C'', 10), (LStr ''D'', 5)]
       = [(LStr ''A'', 5), (LStr ''D'', 5), (LStr ''B'', 10), (LStr ''C'', 10)]"
    by (simp add: spec_rank_regions_def)
  have l: "last (spec_rank_regions Descending
        [(LStr ''A'', 5), (LStr ''B'', 10), (LStr ''C'', 10), (LStr ''D'', 5)]) = (LStr ''D'', 5)"
    unfolding d by simp
  have n: "LStr ''A'' \<noteq> LStr ''D''" by simp
  from reach e d a l n show ?thesis by blast
qed

end
